theory Spec2Isabelle
  imports Complex_Main
begin

section \<open>Dense vectors and matrices\<close>

text \<open>
  The filter of \<^verbatim>\<open>ukf.cpp\<close> works on Eigen's \<^verbatim>\<open>VectorXd\<close> and \<^verbatim>\<open>MatrixXd\<close>.
  A vector is modelled as the list of its coefficients and a matrix as the list of its
  rows, so that the coefficient \<^verbatim>\<open>M(r,c)\<close> is \<open>M ! r ! c\<close>. Coefficients are
  real numbers: where the source computes in \<^verbatim>\<open>double\<close>, the model computes in exact
  arithmetic. Rounding is written out in the two places where it decides what the
  program does: the conversions to \<^verbatim>\<open>float\<close> in \<^verbatim>\<open>ProcessMeasurement\<close>, and the
  two loops at the entry of \<^verbatim>\<open>UpdateRadar\<close>, which \<open>UpdateRadar_double\<close> runs in
  double arithmetic. A vector or matrix that the
  source allocates without filling it (\<^verbatim>\<open>MatrixXd(r, c)\<close>) is modelled with zeros,
  \<open>Zero r c\<close>; wherever it is used, the source writes every coefficient before it
  reads one.
\<close>

type_synonym vec = "real list"
type_synonym mat = "real list list"

definition rows :: "mat \<Rightarrow> nat" where
  "rows M = length M"

definition cols :: "mat \<Rightarrow> nat" where
  "cols M = (case M of [] \<Rightarrow> 0 | r # _ \<Rightarrow> length r)"

definition mat_dim :: "nat \<Rightarrow> nat \<Rightarrow> mat \<Rightarrow> bool" where
  "mat_dim r c M = (length M = r \<and> list_all (\<lambda>row. length row = c) M)"

definition vec_add :: "vec \<Rightarrow> vec \<Rightarrow> vec" where
  "vec_add u v = map2 (+) u v"

definition vec_sub :: "vec \<Rightarrow> vec \<Rightarrow> vec" where
  "vec_sub u v = map2 (-) u v"

definition vec_scale :: "real \<Rightarrow> vec \<Rightarrow> vec" where
  "vec_scale c v = map ((*) c) v"

definition dot :: "vec \<Rightarrow> vec \<Rightarrow> real" where
  "dot u v = sum_list (map2 (*) u v)"

definition col :: "mat \<Rightarrow> nat \<Rightarrow> vec" where
  "col M j = map (\<lambda>row. row ! j) M"

definition set_col :: "mat \<Rightarrow> nat \<Rightarrow> vec \<Rightarrow> mat" where
  "set_col M j v = map2 (\<lambda>row a. row[j := a]) M v"

definition set_entry :: "mat \<Rightarrow> nat \<Rightarrow> nat \<Rightarrow> real \<Rightarrow> mat" where
  "set_entry M r c a = M[r := (M ! r)[c := a]]"

definition mat_transpose :: "mat \<Rightarrow> mat" where
  "mat_transpose M = map (col M) [0..<cols M]"

definition mat_mult :: "mat \<Rightarrow> mat \<Rightarrow> mat" where
  "mat_mult A B = map (\<lambda>row. map (\<lambda>j. dot row (col B j)) [0..<cols B]) A"

definition mat_vec :: "mat \<Rightarrow> vec \<Rightarrow> vec" where
  "mat_vec A v = map (\<lambda>row. dot row v) A"

definition vec_mat :: "vec \<Rightarrow> mat \<Rightarrow> vec" where
  "vec_mat v A = map (\<lambda>j. dot v (col A j)) [0..<cols A]"

definition mat_add :: "mat \<Rightarrow> mat \<Rightarrow> mat" where
  "mat_add A B = map2 vec_add A B"

definition mat_sub :: "mat \<Rightarrow> mat \<Rightarrow> mat" where
  "mat_sub A B = map2 vec_sub A B"

definition outer :: "vec \<Rightarrow> vec \<Rightarrow> mat" where
  "outer u v = map (\<lambda>a. vec_scale a v) u"

definition Zero :: "nat \<Rightarrow> nat \<Rightarrow> mat" where
  "Zero r c = replicate r (replicate c 0)"

definition Identity :: "nat \<Rightarrow> nat \<Rightarrow> mat" where
  "Identity r c = map (\<lambda>i. map (\<lambda>j. if i = j then 1 else 0) [0..<c]) [0..<r]"

definition setZero_vec :: "vec \<Rightarrow> vec" where
  "setZero_vec v = replicate (length v) 0"

definition setZero :: "mat \<Rightarrow> mat" where
  "setZero M = Zero (rows M) (cols M)"

definition setIdentity :: "mat \<Rightarrow> mat" where
  "setIdentity M = Identity (rows M) (cols M)"

definition set_head :: "vec \<Rightarrow> nat \<Rightarrow> vec \<Rightarrow> vec" where
  "set_head v n u = take n u @ drop n v"

definition set_topLeftCorner :: "mat \<Rightarrow> nat \<Rightarrow> nat \<Rightarrow> mat \<Rightarrow> mat" where
  "set_topLeftCorner M r c B =
     map (\<lambda>i. if i < r then take c (B ! i) @ drop c (M ! i) else M ! i) [0..<rows M]"

definition symmetric :: "mat \<Rightarrow> bool" where
  "symmetric M = (mat_transpose M = M)"

section \<open>Single and double precision\<close>

text \<open>
  The binary formats of IEEE 754, which are not part of the source. \<open>round_binary p emin\<close>
  rounds a real number to the nearest number of the format with \<open>p\<close> significant bits
  and least exponent \<open>emin\<close>: the numbers of the format around \<open>x\<close> are the multiples
  of \<open>ulp\<close>, which is \<open>2 powi (e - p + 1)\<close> for the exponent \<open>e\<close> of \<open>x\<close> and stays
  at the spacing of the least exponent below it (gradual underflow); a tie goes to the
  even multiple. Magnitudes beyond the largest finite number of the format, which the
  hardware rounds to an infinity, are outside the model, as are infinities and NaN
  themselves. \<open>to_float\<close> is the conversion to \<^verbatim>\<open>float\<close> (24 bits, least exponent -126),
  \<open>to_double\<close> the rounding of a result to \<^verbatim>\<open>double\<close> (53 bits, least exponent
  -1022). \<open>M_PI\<close> is the value of the macro of \<^verbatim>\<open>math.h\<close>, the double next to
  \<open>pi\<close>, which is \<^verbatim>\<open>0x1.921fb54442d18p+1\<close>.
\<close>

definition round_even :: "real \<Rightarrow> int" where
  "round_even m =
     (let f = \<lfloor>m\<rfloor>; d = m - real_of_int f
      in if d < 1 / 2 then f else if 1 / 2 < d then f + 1
         else if even f then f else f + 1)"

definition round_binary :: "nat \<Rightarrow> int \<Rightarrow> real \<Rightarrow> real" where
  "round_binary p emin x =
     (if x = 0 then 0
      else (let e = max \<lfloor>log 2 \<bar>x\<bar>\<rfloor> emin; ulp = 2 powi (e - int p + 1)
            in real_of_int (round_even (x / ulp)) * ulp))"

definition to_float :: "real \<Rightarrow> real" where
  "to_float x = round_binary 24 (- 126) x"

definition to_double :: "real \<Rightarrow> real" where
  "to_double x = round_binary 53 (- 1022) x"

definition M_PI :: real where
  "M_PI = 884279719003555 / 2 ^ 48"

section \<open>Angle normalization\<close>

text \<open>
  Every heading or bearing difference of the source is normalized by the same two loops,
  written out at each place:
  \<^verbatim>\<open>while (a >  M_PI) a -= 2.*M_PI;\<close>
  \<^verbatim>\<open>while (a < -M_PI) a += 2.*M_PI;\<close>
  In exact arithmetic, where \<^verbatim>\<open>M_PI\<close> is \<open>pi\<close>, each loop is a recursive function on
  the reals; both terminate, since every iteration moves the angle by a full turn
  towards the interval.
\<close>

function normalize_down :: "real \<Rightarrow> real" where
  "normalize_down a = (if a > pi then normalize_down (a - 2 * pi) else a)"
  by pat_completeness auto
termination
proof (relation "measure (\<lambda>a. nat \<lceil>(a - pi) / (2 * pi)\<rceil>)")
  show "wf (measure (\<lambda>a. nat \<lceil>(a - pi) / (2 * pi)\<rceil>))" by simp
next
  fix a :: real
  assume gt: "pi < a"
  have step: "(a - 2 * pi - pi) / (2 * pi) = (a - pi) / (2 * pi) - 1"
    by (simp add: field_simps)
  have pos: "0 < (a - pi) / (2 * pi)"
    using gt by simp
  then have "0 < \<lceil>(a - pi) / (2 * pi)\<rceil>"
    by (simp add: ceiling_less_iff)
  moreover have "\<lceil>(a - 2 * pi - pi) / (2 * pi)\<rceil> = \<lceil>(a - pi) / (2 * pi)\<rceil> - 1"
    unfolding step by (rule ceiling_diff_one)
  ultimately have "nat \<lceil>(a - 2 * pi - pi) / (2 * pi)\<rceil> < nat \<lceil>(a - pi) / (2 * pi)\<rceil>"
    by linarith
  then show "(a - 2 * pi, a) \<in> measure (\<lambda>a. nat \<lceil>(a - pi) / (2 * pi)\<rceil>)"
    unfolding in_measure .
qed

function normalize_up :: "real \<Rightarrow> real" where
  "normalize_up a = (if a < - pi then normalize_up (a + 2 * pi) else a)"
  by pat_completeness auto
termination
proof (relation "measure (\<lambda>a. nat \<lceil>(- pi - a) / (2 * pi)\<rceil>)")
  show "wf (measure (\<lambda>a. nat \<lceil>(- pi - a) / (2 * pi)\<rceil>))" by simp
next
  fix a :: real
  assume lt: "a < - pi"
  have step: "(- pi - (a + 2 * pi)) / (2 * pi) = (- pi - a) / (2 * pi) - 1"
    by (simp add: field_simps)
  have pos: "0 < (- pi - a) / (2 * pi)"
    using lt by simp
  then have "0 < \<lceil>(- pi - a) / (2 * pi)\<rceil>"
    by (simp add: ceiling_less_iff)
  moreover have "\<lceil>(- pi - (a + 2 * pi)) / (2 * pi)\<rceil> = \<lceil>(- pi - a) / (2 * pi)\<rceil> - 1"
    unfolding step by (rule ceiling_diff_one)
  ultimately have "nat \<lceil>(- pi - (a + 2 * pi)) / (2 * pi)\<rceil> < nat \<lceil>(- pi - a) / (2 * pi)\<rceil>"
    by linarith
  then show "(a + 2 * pi, a) \<in> measure (\<lambda>a. nat \<lceil>(- pi - a) / (2 * pi)\<rceil>)"
    unfolding in_measure .
qed

text \<open>
  The two recursive equations hold without a condition, so they are applied one step at
  a time and kept out of the simplifier.
\<close>

declare normalize_down.simps [simp del] normalize_up.simps [simp del]

definition normalize_angle :: "real \<Rightarrow> real" where
  "normalize_angle a = normalize_up (normalize_down a)"

text \<open>
  The same two loops in double arithmetic: the constant is the double \<open>M_PI\<close>, the
  product \<^verbatim>\<open>2.*M_PI\<close> is exact, and every difference and sum is rounded to \<^verbatim>\<open>double\<close>.
  Such a loop need not terminate, since the rounding can give back the angle it
  started from; a loop that runs forever has the value \<open>None\<close>.
\<close>

partial_function (option) normalize_down_double :: "real \<Rightarrow> real option" where
  "normalize_down_double a =
     (if a > M_PI then normalize_down_double (to_double (a - 2 * M_PI)) else Some a)"

partial_function (option) normalize_up_double :: "real \<Rightarrow> real option" where
  "normalize_up_double a =
     (if a < - M_PI then normalize_up_double (to_double (a + 2 * M_PI)) else Some a)"

definition normalize_angle_double :: "real \<Rightarrow> real option" where
  "normalize_angle_double a =
     (case normalize_down_double a of None \<Rightarrow> None | Some b \<Rightarrow> normalize_up_double b)"

section \<open>Library functions the filter calls\<close>

text \<open>
  Two operations of Eigen are used by the filter and are not part of its source:
  \<^verbatim>\<open>A.llt().matrixL()\<close>, the lower-triangular Cholesky factor, and \<^verbatim>\<open>S.inverse()\<close>.
  Every operation below that calls one of them takes it as a parameter (\<open>llt\<close>,
  \<open>minverse\<close>); what a theorem needs of the library is one of its hypotheses.
  \<open>is_inverse\<close> is the contract of \<^verbatim>\<open>inverse()\<close> on an invertible \<open>n\<close>-by-\<open>n\<close>
  matrix. \<open>llt_diagonal\<close> and \<open>inverse_diagonal\<close> are the two operations on diagonal
  matrices, where they act on each coefficient; they instantiate the parameters at
  concrete inputs.
\<close>

definition is_inverse :: "nat \<Rightarrow> mat \<Rightarrow> mat \<Rightarrow> bool" where
  "is_inverse n S Si =
     (mat_dim n n Si \<and> mat_mult S Si = Identity n n \<and> mat_mult Si S = Identity n n)"

definition llt_diagonal :: "mat \<Rightarrow> mat" where
  "llt_diagonal A = map (map sqrt) A"

definition inverse_diagonal :: "mat \<Rightarrow> mat" where
  "inverse_diagonal A = map (map inverse) A"

text \<open>
  \<^verbatim>\<open>atan2\<close> of the C library, which is not part of the source either, by quadrants,
  with \<^verbatim>\<open>atan2(0,0) = 0\<close>.
\<close>

definition atan2 :: "real \<Rightarrow> real \<Rightarrow> real" where
  "atan2 y x =
     (if 0 < x then arctan (y / x)
      else if x < 0 \<and> 0 \<le> y then arctan (y / x) + pi
      else if x < 0 then arctan (y / x) - pi
      else if 0 < y then pi / 2
      else if y < 0 then - (pi / 2)
      else 0)"

text \<open>
  A quotient whose divisor is a run-time quantity is a partial operation: \<open>None\<close> is the
  division by zero. The two guarded quotients of the filter are written with it, so that
  the guards have something to rule out.
\<close>

definition checked_div :: "real \<Rightarrow> real \<Rightarrow> real option" where
  "checked_div a b = (if b = 0 then None else Some (a / b))"

section \<open>Data model\<close>

text \<open>
  Modelled from the spec: the measurement record of \<^verbatim>\<open>measurement_package.h\<close>, which is
  not among the sources: a sensor kind, the raw values and a timestamp in microseconds.
  The dispatch of \<^verbatim>\<open>ProcessMeasurement\<close> compares the kind with \<^verbatim>\<open>RADAR\<close> and
  \<^verbatim>\<open>LASER\<close> and has a third branch for any other value, which is \<open>UNKNOWN\<close> here.
\<close>

datatype SensorType = LASER | RADAR | UNKNOWN

record MeasurementPackage =
  sensor_type :: SensorType
  raw_measurements :: vec
  timestamp :: int

text \<open>
  Modelled from the spec: the declaration of class \<^verbatim>\<open>UKF\<close> in \<^verbatim>\<open>ukf.h\<close>, which is not
  among the sources. The fields are the members that \<^verbatim>\<open>ukf.cpp\<close> reads or writes. The
  members \<^verbatim>\<open>x_\<close> and \<^verbatim>\<open>P_\<close> are the fields \<open>ukf_x\<close> and \<open>ukf_P\<close>; the other fields
  keep their names without the trailing underscore. The dimensions are natural numbers,
  the timestamp is an integer, and \<^verbatim>\<open>lambda_\<close> is a \<^verbatim>\<open>double\<close>, since the weights it
  defines are fractions that sum to 1.
\<close>

record UKF =
  is_initialized :: bool
  use_laser :: bool
  use_radar :: bool
  ukf_x :: vec
  ukf_P :: mat
  Xsig_pred :: mat
  time_us :: int
  std_a :: real
  std_yawdd :: real
  std_laspx :: real
  std_laspy :: real
  std_radr :: real
  std_radphi :: real
  std_radrd :: real
  weights :: vec
  n_x :: nat
  n_aug :: nat
  lambda :: real
  H_laser :: mat
  R_laser :: mat
  R_radar :: mat
  NIS_laser :: real
  NIS_radar :: real

section \<open>Construction\<close>

text \<open>
  \<^verbatim>\<open>UKF::UKF()\<close>. The argument \<open>raw\<close> is the object before the constructor runs: the
  constructor assigns neither \<^verbatim>\<open>is_initialized_\<close>, \<^verbatim>\<open>time_us_\<close> nor the two NIS
  values, and it allocates \<^verbatim>\<open>x_\<close>, \<^verbatim>\<open>P_\<close> and \<^verbatim>\<open>Xsig_pred_\<close> without filling
  them, so these fields keep what \<open>raw\<close> holds. \<^verbatim>\<open>lambda_ = 3 - n_x_\<close> is a
  subtraction of \<^verbatim>\<open>int\<close>s. Every coefficient of \<^verbatim>\<open>weights_\<close> is written, so the
  content it is allocated with (zeros here) does not show.
\<close>

definition UKF_ctor :: "UKF \<Rightarrow> UKF" where
  "UKF_ctor raw =
     (let n_x' = 5;
          n_aug' = n_x' + 2;
          std_laspx' = 0.15;
          std_laspy' = 0.15;
          std_radr' = 0.3;
          std_radphi' = 0.03;
          std_radrd' = 0.3;
          lambda' = real_of_int (3 - int n_x');
          w0 = (replicate (2 * n_aug' + 1) 0)[0 := lambda' / (lambda' + real n_aug')];
          w = fold (\<lambda>i w. w[i := 0.5 / (real n_aug' + lambda')]) [1..<2 * n_aug' + 1] w0
      in raw\<lparr>use_laser := True,
             use_radar := True,
             n_x := n_x',
             n_aug := n_aug',
             std_a := 0.45,
             std_yawdd := 0.45,
             std_laspx := std_laspx',
             std_laspy := std_laspy',
             std_radr := std_radr',
             std_radphi := std_radphi',
             std_radrd := std_radrd',
             lambda := lambda',
             weights := w,
             H_laser := setIdentity (Zero 2 n_x'),
             R_laser := [[std_laspx' * std_laspx', 0],
                         [0, std_laspy' * std_laspy']],
             R_radar := [[std_radr' * std_radr', 0, 0],
                         [0, std_radphi' * std_radphi', 0],
                         [0, 0, std_radrd' * std_radrd']]\<rparr>)"

section \<open>Normalized innovation squared\<close>

text \<open>\<^verbatim>\<open>UKF::NIS\<close>: the product of a row vector, a matrix and a column vector, as a scalar.\<close>

definition NIS :: "(mat \<Rightarrow> mat) \<Rightarrow> vec \<Rightarrow> vec \<Rightarrow> mat \<Rightarrow> real" where
  "NIS minverse z_measured z_predicted S_predicted =
     (let diff_pred = vec_sub z_measured z_predicted
      in dot (vec_mat diff_pred (minverse S_predicted)) diff_pred)"

section \<open>Lidar update\<close>

text \<open>
  \<^verbatim>\<open>UKF::UpdateLidar\<close>. The innovation covariance \<^verbatim>\<open>S\<close> of the source is a definition
  of its own, since the contract of the inverse is stated on it.
\<close>

definition UpdateLidar_S :: "UKF \<Rightarrow> mat" where
  "UpdateLidar_S s =
     (let Ht = mat_transpose (H_laser s)
      in mat_add (mat_mult (mat_mult (H_laser s) (ukf_P s)) Ht) (R_laser s))"

definition UpdateLidar :: "(mat \<Rightarrow> mat) \<Rightarrow> UKF \<Rightarrow> vec \<Rightarrow> UKF" where
  "UpdateLidar minverse s z =
     (let z_pred = mat_vec (H_laser s) (ukf_x s);
          y = vec_sub z z_pred;
          Ht = mat_transpose (H_laser s);
          S = UpdateLidar_S s;
          Si = minverse S;
          PHt = mat_mult (ukf_P s) Ht;
          K = mat_mult PHt Si;
          x' = vec_add (ukf_x s) (mat_vec K y);
          x_size = length x';
          I = Identity x_size x_size;
          P' = mat_mult (mat_sub I (mat_mult K (H_laser s))) (ukf_P s)
      in s\<lparr>ukf_x := x', ukf_P := P', NIS_laser := NIS minverse z z_pred S\<rparr>)"

section \<open>Radar update\<close>

text \<open>
  The body of the loop that maps a predicted sigma point into measurement space: the
  column \<open>i\<close> of \<^verbatim>\<open>Zsig\<close>. The range rate divides by the range \<^verbatim>\<open>c1\<close> behind the
  guard \<^verbatim>\<open>fabs(c1) > 0.0001\<close>.
\<close>

definition UpdateRadar_Zsig_col :: "mat \<Rightarrow> nat \<Rightarrow> vec option" where
  "UpdateRadar_Zsig_col Xsig_pred' i =
     (let p_x = Xsig_pred' ! 0 ! i;
          p_y = Xsig_pred' ! 1 ! i;
          v = Xsig_pred' ! 2 ! i;
          yaw = Xsig_pred' ! 3 ! i;
          v1 = cos yaw * v;
          v2 = sin yaw * v;
          c1 = sqrt (p_x * p_x + p_y * p_y)
      in case (if \<bar>c1\<bar> > 0.0001 then checked_div (p_x * v1 + p_y * v2) c1 else Some 0) of
           None \<Rightarrow> None
         | Some rho_dot \<Rightarrow> Some [c1, atan2 p_y p_x, rho_dot])"

fun UpdateRadar_Zsig_loop :: "mat \<Rightarrow> nat list \<Rightarrow> mat \<Rightarrow> mat option" where
  "UpdateRadar_Zsig_loop Xsig_pred' [] Zsig = Some Zsig"
| "UpdateRadar_Zsig_loop Xsig_pred' (i # is) Zsig =
     (case UpdateRadar_Zsig_col Xsig_pred' i of
        None \<Rightarrow> None
      | Some zc \<Rightarrow>
          UpdateRadar_Zsig_loop Xsig_pred' is
            (set_entry (set_entry (set_entry Zsig 0 i (zc ! 0)) 1 i (zc ! 1)) 2 i (zc ! 2)))"

definition UpdateRadar_z_pred :: "UKF \<Rightarrow> mat \<Rightarrow> vec" where
  "UpdateRadar_z_pred s Zsig =
     fold (\<lambda>i z_pred. vec_add z_pred (vec_scale (weights s ! i) (col Zsig i)))
       [0..<2 * n_aug s + 1] (setZero_vec (replicate 3 0))"

definition UpdateRadar_S :: "UKF \<Rightarrow> mat \<Rightarrow> vec \<Rightarrow> mat" where
  "UpdateRadar_S s Zsig z_pred =
     (let S = fold (\<lambda>i S.
                 let z_diff = vec_sub (col Zsig i) z_pred;
                     z_diff = z_diff[1 := normalize_angle (z_diff ! 1)]
                 in mat_add S (outer (vec_scale (weights s ! i) z_diff) z_diff))
               [0..<2 * n_aug s + 1] (setZero (Zero 3 3))
      in mat_add S (R_radar s))"

definition UpdateRadar_Tc :: "UKF \<Rightarrow> mat \<Rightarrow> vec \<Rightarrow> mat" where
  "UpdateRadar_Tc s Zsig z_pred =
     fold (\<lambda>i Tc.
        let z_diff = vec_sub (col Zsig i) z_pred;
            z_diff = z_diff[1 := normalize_angle (z_diff ! 1)];
            x_diff = vec_sub (col (Xsig_pred s) i) (ukf_x s);
            x_diff = x_diff[3 := normalize_angle (x_diff ! 3)]
        in mat_add Tc (outer (vec_scale (weights s ! i) x_diff) z_diff))
       [0..<2 * n_aug s + 1] (setZero (Zero (n_x s) 3))"

text \<open>
  \<^verbatim>\<open>UKF::UpdateRadar\<close> takes the measurement by reference and normalizes its bearing in
  place, so the operation returns the measurement vector next to the new state.
  \<open>UpdateRadar_body\<close> is the function after its first two statements, the two loops
  that normalize the bearing \<^verbatim>\<open>z(1)\<close>: it reads the vector and does not write it.
  \<open>UpdateRadar\<close> is the whole function in exact arithmetic. \<open>UpdateRadar_double\<close> is
  the whole function with its first two statements in double arithmetic, where they
  may run forever; what follows them is the same in both.
\<close>

definition UpdateRadar_body :: "(mat \<Rightarrow> mat) \<Rightarrow> UKF \<Rightarrow> vec \<Rightarrow> (UKF \<times> vec) option" where
  "UpdateRadar_body minverse s z =
     (case UpdateRadar_Zsig_loop (Xsig_pred s) [0..<2 * n_aug s + 1]
             (Zero 3 (2 * n_aug s + 1)) of
        None \<Rightarrow> None
      | Some Zsig \<Rightarrow>
          (let z_pred = UpdateRadar_z_pred s Zsig;
               S = UpdateRadar_S s Zsig z_pred;
               Tc = UpdateRadar_Tc s Zsig z_pred;
               K = mat_mult Tc (minverse S);
               z_diff = vec_sub z z_pred;
               z_diff = z_diff[1 := normalize_angle (z_diff ! 1)]
           in Some (s\<lparr>ukf_x := vec_add (ukf_x s) (mat_vec K z_diff),
                       ukf_P := mat_sub (ukf_P s)
                                  (mat_mult (mat_mult K S) (mat_transpose K)),
                       NIS_radar := NIS minverse z z_pred S\<rparr>, z)))"

definition UpdateRadar :: "(mat \<Rightarrow> mat) \<Rightarrow> UKF \<Rightarrow> vec \<Rightarrow> (UKF \<times> vec) option" where
  "UpdateRadar minverse s z0 =
     UpdateRadar_body minverse s (z0[1 := normalize_angle (z0 ! 1)])"

definition UpdateRadar_double ::
  "(mat \<Rightarrow> mat) \<Rightarrow> UKF \<Rightarrow> vec \<Rightarrow> (UKF \<times> vec) option" where
  "UpdateRadar_double minverse s z0 =
     (case normalize_angle_double (z0 ! 1) of
        None \<Rightarrow> None
      | Some b \<Rightarrow> UpdateRadar_body minverse s (z0[1 := b]))"

section \<open>Prediction\<close>

text \<open>
  \<^verbatim>\<open>UKF::GenerateAugmentedSigmaPoints\<close>, which fills the matrix it is given. The
  augmented covariance \<^verbatim>\<open>P_aug\<close> of the source is a definition of its own, the
  argument of the Cholesky factorization.
\<close>

definition GenerateAugmentedSigmaPoints_P_aug :: "UKF \<Rightarrow> mat" where
  "GenerateAugmentedSigmaPoints_P_aug s =
     (let P_aug = setZero (Zero (n_aug s) (n_aug s));
          P_aug = set_topLeftCorner P_aug (n_x s) (n_x s) (ukf_P s);
          P_aug = set_entry P_aug (n_x s) (n_x s) (std_a s * std_a s)
      in set_entry P_aug (n_x s + 1) (n_x s + 1) (std_yawdd s * std_yawdd s))"

definition GenerateAugmentedSigmaPoints :: "(mat \<Rightarrow> mat) \<Rightarrow> UKF \<Rightarrow> mat \<Rightarrow> mat" where
  "GenerateAugmentedSigmaPoints llt s Xsig_aug0 =
     (let x_aug = set_head (replicate (n_aug s) 0) (n_x s) (ukf_x s);
          x_aug = fold (\<lambda>i v. v[i := 0]) [n_x s..<n_aug s] x_aug;
          P_aug = GenerateAugmentedSigmaPoints_P_aug s;
          L = llt P_aug;
          Xsig_aug = set_col Xsig_aug0 0 x_aug
      in fold (\<lambda>i Xsig_aug.
            let distance = vec_scale (sqrt (lambda s + real (n_aug s))) (col L i);
                Xsig_aug = set_col Xsig_aug (i + 1) (vec_add x_aug distance)
            in set_col Xsig_aug (i + 1 + n_aug s) (vec_sub x_aug distance))
           [0..<n_aug s] Xsig_aug)"

text \<open>
  The body of the loop of \<^verbatim>\<open>UKF::SigmaPointPrediction\<close>: the predicted sigma point
  for column \<open>i\<close>. The turn divides by the yaw rate behind the guard
  \<^verbatim>\<open>fabs(yawd) > 0.001\<close>.
\<close>

definition SigmaPointPrediction_col :: "real \<Rightarrow> mat \<Rightarrow> nat \<Rightarrow> vec option" where
  "SigmaPointPrediction_col delta_t Xsig_aug i =
     (let p_x = Xsig_aug ! 0 ! i;
          p_y = Xsig_aug ! 1 ! i;
          v = Xsig_aug ! 2 ! i;
          yaw = Xsig_aug ! 3 ! i;
          yawd = Xsig_aug ! 4 ! i;
          nu_a = Xsig_aug ! 5 ! i;
          nu_yawdd = Xsig_aug ! 6 ! i
      in case (if \<bar>yawd\<bar> > 0.001
               then (case checked_div v yawd of
                       None \<Rightarrow> None
                     | Some q \<Rightarrow>
                         Some (p_x + q * (sin (yaw + yawd * delta_t) - sin yaw),
                               p_y + q * (cos yaw - cos (yaw + yawd * delta_t))))
               else Some (p_x + v * delta_t * cos yaw, p_y + v * delta_t * sin yaw)) of
           None \<Rightarrow> None
         | Some (px_p, py_p) \<Rightarrow>
             (let v_p = v;
                  yaw_p = yaw + yawd * delta_t;
                  yawd_p = yawd;
                  delta_t_2 = delta_t * delta_t;
                  px_p = px_p + 0.5 * nu_a * delta_t_2 * cos yaw;
                  py_p = py_p + 0.5 * nu_a * delta_t_2 * sin yaw;
                  v_p = v_p + nu_a * delta_t;
                  yaw_p = yaw_p + 0.5 * nu_yawdd * delta_t_2;
                  yawd_p = yawd_p + nu_yawdd * delta_t
              in Some [px_p, py_p, v_p, yaw_p, yawd_p]))"

fun SigmaPointPrediction_loop :: "real \<Rightarrow> mat \<Rightarrow> nat list \<Rightarrow> mat \<Rightarrow> mat option" where
  "SigmaPointPrediction_loop delta_t Xsig_aug [] Xp = Some Xp"
| "SigmaPointPrediction_loop delta_t Xsig_aug (i # is) Xp =
     (case SigmaPointPrediction_col delta_t Xsig_aug i of
        None \<Rightarrow> None
      | Some p \<Rightarrow>
          SigmaPointPrediction_loop delta_t Xsig_aug is
            (set_entry (set_entry (set_entry (set_entry (set_entry Xp
               0 i (p ! 0)) 1 i (p ! 1)) 2 i (p ! 2)) 3 i (p ! 3)) 4 i (p ! 4)))"

definition SigmaPointPrediction :: "real \<Rightarrow> mat \<Rightarrow> UKF \<Rightarrow> UKF option" where
  "SigmaPointPrediction delta_t Xsig_aug s =
     (case SigmaPointPrediction_loop delta_t Xsig_aug [0..<2 * n_aug s + 1] (Xsig_pred s) of
        None \<Rightarrow> None
      | Some Xp \<Rightarrow> Some (s\<lparr>Xsig_pred := Xp\<rparr>))"

text \<open>\<^verbatim>\<open>UKF::PredictMeanAndCovariance\<close>.\<close>

definition PredictMeanAndCovariance :: "UKF \<Rightarrow> UKF" where
  "PredictMeanAndCovariance s =
     (let x' = fold (\<lambda>i x'. vec_add x' (vec_scale (weights s ! i) (col (Xsig_pred s) i)))
                 [0..<2 * n_aug s + 1] (setZero_vec (ukf_x s));
          P' = fold (\<lambda>i P'.
                  let x_diff = vec_sub (col (Xsig_pred s) i) x';
                      x_diff = x_diff[3 := normalize_angle (x_diff ! 3)]
                  in mat_add P' (outer (vec_scale (weights s ! i) x_diff) x_diff))
                 [0..<2 * n_aug s + 1] (setZero (ukf_P s))
      in s\<lparr>ukf_x := x', ukf_P := P'\<rparr>)"

text \<open>\<^verbatim>\<open>UKF::Prediction\<close>. The local matrix is allocated and then filled.\<close>

definition Prediction :: "(mat \<Rightarrow> mat) \<Rightarrow> real \<Rightarrow> UKF \<Rightarrow> UKF option" where
  "Prediction llt delta_t s =
     (let Xsig_aug = GenerateAugmentedSigmaPoints llt s (Zero (n_aug s) (2 * n_aug s + 1))
      in case SigmaPointPrediction delta_t Xsig_aug s of
           None \<Rightarrow> None
         | Some s' \<Rightarrow> Some (PredictMeanAndCovariance s'))"

section \<open>Processing a measurement\<close>

text \<open>
  \<^verbatim>\<open>UKF::ProcessMeasurement\<close>. The measurement is passed by reference and handed on to
  \<^verbatim>\<open>UpdateRadar\<close>, so it is returned with the state. Each \<^verbatim>\<open>return\<close> of the source is
  one \<open>Some\<close> of a pair below; \<open>None\<close> as the result passes on a division by zero
  or a loop of \<^verbatim>\<open>UpdateRadar\<close> that runs forever.
  In the first branch the inner \<open>None\<close> is the unknown sensor kind, which returns before
  anything is written. The range, the bearing and the position of the first measurement
  are variables of type \<^verbatim>\<open>float\<close>: each is rounded to single precision, and so are the
  cosine, the sine and the two products, which the source forms from values of type
  \<^verbatim>\<open>float\<close> (the cosine and the sine of the library are taken as correctly rounded).
  Timestamps are integers; the elapsed time is their difference in seconds, in a
  variable of type \<^verbatim>\<open>float\<close> as well.
\<close>

definition ProcessMeasurement ::
  "(mat \<Rightarrow> mat) \<Rightarrow> (mat \<Rightarrow> mat) \<Rightarrow> UKF \<Rightarrow> MeasurementPackage
     \<Rightarrow> (UKF \<times> MeasurementPackage) option" where
  "ProcessMeasurement llt minverse s meas_pack =
     (if \<not> is_initialized s then
        (case (if sensor_type meas_pack = RADAR then
                 (let rho = to_float (raw_measurements meas_pack ! 0);
                      phi = to_float (raw_measurements meas_pack ! 1);
                      px = to_float (rho * to_float (cos phi));
                      py = to_float (rho * to_float (sin phi))
                  in Some (s\<lparr>ukf_x := [px, py, 0, 0, 0]\<rparr>))
               else if sensor_type meas_pack = LASER then
                 (let px = to_float (raw_measurements meas_pack ! 0);
                      py = to_float (raw_measurements meas_pack ! 1)
                  in Some (s\<lparr>ukf_x := [px, py, 0, 0, 0]\<rparr>))
               else None) of
           None \<Rightarrow> Some (s, meas_pack)
         | Some s1 \<Rightarrow>
             (if ukf_x s1 ! 0 = 0 \<and> ukf_x s1 ! 1 = 0 then Some (s1, meas_pack)
              else Some (s1\<lparr>ukf_P := setIdentity (ukf_P s1),
                             time_us := timestamp meas_pack,
                             is_initialized := True\<rparr>, meas_pack)))
      else
        (let dt = to_float (real_of_int (timestamp meas_pack - time_us s) / 1000000);
             s1 = s\<lparr>time_us := timestamp meas_pack\<rparr>
         in case Prediction llt dt s1 of
              None \<Rightarrow> None
            | Some s2 \<Rightarrow>
                (if sensor_type meas_pack = RADAR then
                   (if \<not> use_radar s2 then Some (s2, meas_pack)
                    else (case UpdateRadar_double minverse s2 (raw_measurements meas_pack) of
                            None \<Rightarrow> None
                          | Some (s3, z) \<Rightarrow> Some (s3, meas_pack\<lparr>raw_measurements := z\<rparr>)))
                 else if sensor_type meas_pack = LASER then
                   (if \<not> use_laser s2 then Some (s2, meas_pack)
                    else Some (UpdateLidar minverse s2 (raw_measurements meas_pack), meas_pack))
                 else Some (s2, meas_pack))))"

section \<open>Concrete filters\<close>

text \<open>
  \<open>unconstructed\<close> is one possible content of the object's memory before the constructor
  runs, \<open>fresh_filter\<close> the filter constructed on it, and \<open>tracking_filter\<close> the filter
  after it has accepted the lidar reading \<open>(3, 4)\<close> at time 0 as its first measurement.
\<close>

definition unconstructed :: UKF where
  "unconstructed =
     \<lparr>is_initialized = False, use_laser = False, use_radar = False,
      ukf_x = [1, 2, 3, 4, 5], ukf_P = Zero 5 5, Xsig_pred = Zero 5 15, time_us = 0,
      std_a = 0, std_yawdd = 0, std_laspx = 0, std_laspy = 0, std_radr = 0,
      std_radphi = 0, std_radrd = 0, weights = [], n_x = 0, n_aug = 0, lambda = 0,
      H_laser = [], R_laser = [], R_radar = [], NIS_laser = 0, NIS_radar = 0\<rparr>"

definition fresh_filter :: UKF where
  "fresh_filter = UKF_ctor unconstructed"

definition tracking_filter :: UKF where
  "tracking_filter =
     fresh_filter\<lparr>ukf_x := [3, 4, 0, 0, 0], ukf_P := Identity 5 5, time_us := 0,
                  is_initialized := True\<rparr>"

section \<open>Facts about lists, vectors and matrices\<close>

lemma upt_1_15: "[1..<15] = [1, 2, 3, 4, 5, 6, 7, 8, 9, 10, 11, 12, 13, 14]"
  by (simp add: upt_rec)

lemma Identity_5_5:
  "Identity 5 5 = [[1, 0, 0, 0, 0], [0, 1, 0, 0, 0], [0, 0, 1, 0, 0], [0, 0, 0, 1, 0], [0, 0, 0, 0, 1]]"
  by (simp add: Identity_def upt_rec)

lemma mat_dim_rows_cols: "mat_dim r c M \<Longrightarrow> 0 < r \<Longrightarrow> rows M = r \<and> cols M = c"
  by (cases M) (auto simp: mat_dim_def rows_def cols_def)

lemma setIdentity_5_5: "mat_dim 5 5 M \<Longrightarrow> setIdentity M = Identity 5 5"
  using mat_dim_rows_cols [of 5 5 M] by (simp add: setIdentity_def)

lemma mat_dim_Zero: "mat_dim r c (Zero r c)"
  by (simp add: mat_dim_def Zero_def list_all_iff)

lemma upt_0_5: "[0..<5] = [0, 1, 2, 3, 4]"
  by (simp add: upt_rec)

lemma rows_Zero: "rows (Zero r c) = r"
  by (simp add: rows_def Zero_def)

lemma cols_Zero: "0 < r \<Longrightarrow> cols (Zero r c) = c"
  by (cases r) (simp_all add: cols_def Zero_def)

lemma setIdentity_Zero: "0 < r \<Longrightarrow> setIdentity (Zero r c) = Identity r c"
  by (simp add: setIdentity_def rows_Zero cols_Zero)

lemma setZero_Zero: "0 < r \<Longrightarrow> setZero (Zero r c) = Zero r c"
  by (simp add: setZero_def rows_Zero cols_Zero)

lemma vec5_explicit: "length v = 5 \<Longrightarrow> \<exists>a b c d e. v = [a, b, c, d, e]"
  by (auto simp: length_Suc_conv eval_nat_numeral)

lemma dot_zeros: "dot u (replicate n 0) = 0"
proof (induction u arbitrary: n)
  case Nil
  show ?case by (simp add: dot_def)
next
  case (Cons a u)
  then show ?case by (cases n) (simp_all add: dot_def)
qed

lemma vec_add_zeros: "length u \<le> n \<Longrightarrow> vec_add u (replicate n 0) = u"
proof (induction u arbitrary: n)
  case Nil
  show ?case by (simp add: vec_add_def)
next
  case (Cons a u)
  then show ?case by (cases n) (simp_all add: vec_add_def)
qed

lemma mat_vec_zeros: "mat_vec K (replicate n 0) = replicate (length K) 0"
  by (simp add: mat_vec_def dot_zeros map_replicate_const)

lemma length_mat_mult: "length (mat_mult A B) = length A"
  by (simp add: mat_mult_def)

lemma vec2_explicit: "length v = 2 \<Longrightarrow> \<exists>a b. v = [a, b]"
  by (auto simp: length_Suc_conv eval_nat_numeral)

lemma vec3_explicit: "length v = 3 \<Longrightarrow> \<exists>a b c. v = [a, b, c]"
  by (auto simp: length_Suc_conv eval_nat_numeral)

lemma mat22_explicit:
  assumes "mat_dim 2 2 M"
  shows "\<exists>a b c d. M = [[a, b], [c, d]]"
proof -
  from assms have "length M = 2" by (simp add: mat_dim_def)
  then obtain r0 r1 where M: "M = [r0, r1]" using vec2_explicit by blast
  with assms have "length r0 = 2" "length r1 = 2" by (simp_all add: mat_dim_def)
  then show ?thesis unfolding M using vec2_explicit by metis
qed

lemma mat55_explicit:
  assumes "mat_dim 5 5 M"
  shows "\<exists>r0 r1 r2 r3 r4. M = [r0, r1, r2, r3, r4] \<and> length r0 = 5 \<and> length r1 = 5
     \<and> length r2 = 5 \<and> length r3 = 5 \<and> length r4 = 5"
proof -
  from assms have "length M = 5" by (simp add: mat_dim_def)
  then obtain r0 r1 r2 r3 r4 where M: "M = [r0, r1, r2, r3, r4]" using vec5_explicit by blast
  with assms show ?thesis by (simp add: mat_dim_def)
qed

lemma upt_0_2: "[0..<2] = [0, 1]"
  by (simp add: upt_rec)

lemma inverse22_symmetric:
  assumes "mat_mult [[s00, s01], [s01, s11]] [[a, b], [c, d]] = Identity 2 2"
  shows "b = c"
proof -
  from assms have e: "s00 * a + s01 * c = 1" "s00 * b + s01 * d = 0"
    "s01 * a + s11 * c = 0" "s01 * b + s11 * d = 1"
    by (simp_all add: mat_mult_def Identity_def cols_def col_def dot_def upt_0_2)
  have "c = c * (s01 * b + s11 * d) + a * (s00 * b + s01 * d)"
    using e by simp
  also have "\<dots> = b * (s00 * a + s01 * c) + d * (s01 * a + s11 * c)"
    by (simp add: algebra_simps)
  also have "\<dots> = b" using e by simp
  finally show ?thesis by simp
qed

lemma upt_0_3: "[0..<3] = [0, 1, 2]"
  by (simp add: upt_rec)

lemma sym55_explicit:
  assumes "mat_dim 5 5 M" and "symmetric M"
  shows "\<exists>p00 p01 p02 p03 p04 p11 p12 p13 p14 p22 p23 p24 p33 p34 p44.
    M = [[p00, p01, p02, p03, p04], [p01, p11, p12, p13, p14], [p02, p12, p22, p23, p24],
         [p03, p13, p23, p33, p34], [p04, p14, p24, p34, p44]]"
proof -
  obtain r0 r1 r2 r3 r4 where M: "M = [r0, r1, r2, r3, r4]"
    and l: "length r0 = 5" "length r1 = 5" "length r2 = 5" "length r3 = 5" "length r4 = 5"
    using mat55_explicit [OF assms(1)] by blast
  obtain a0 a1 a2 a3 a4 where r0: "r0 = [a0, a1, a2, a3, a4]"
    using vec5_explicit [OF l(1)] by blast
  obtain b0 b1 b2 b3 b4 where r1: "r1 = [b0, b1, b2, b3, b4]"
    using vec5_explicit [OF l(2)] by blast
  obtain c0 c1 c2 c3 c4 where r2: "r2 = [c0, c1, c2, c3, c4]"
    using vec5_explicit [OF l(3)] by blast
  obtain d0 d1 d2 d3 d4 where r3: "r3 = [d0, d1, d2, d3, d4]"
    using vec5_explicit [OF l(4)] by blast
  obtain e0 e1 e2 e3 e4 where r4: "r4 = [e0, e1, e2, e3, e4]"
    using vec5_explicit [OF l(5)] by blast
  have "mat_transpose [[a0, a1, a2, a3, a4], [b0, b1, b2, b3, b4], [c0, c1, c2, c3, c4],
         [d0, d1, d2, d3, d4], [e0, e1, e2, e3, e4]]
     = [[a0, b0, c0, d0, e0], [a1, b1, c1, d1, e1], [a2, b2, c2, d2, e2],
        [a3, b3, c3, d3, e3], [a4, b4, c4, d4, e4]]"
    by (simp add: mat_transpose_def cols_def col_def upt_0_5)
  with assms(2) have e: "[[a0, b0, c0, d0, e0], [a1, b1, c1, d1, e1], [a2, b2, c2, d2, e2],
        [a3, b3, c3, d3, e3], [a4, b4, c4, d4, e4]]
      = [[a0, a1, a2, a3, a4], [b0, b1, b2, b3, b4], [c0, c1, c2, c3, c4],
         [d0, d1, d2, d3, d4], [e0, e1, e2, e3, e4]]"
    unfolding symmetric_def M r0 r1 r2 r3 r4 by (simp only:)
  have nth: "[[a0, b0, c0, d0, e0], [a1, b1, c1, d1, e1], [a2, b2, c2, d2, e2],
        [a3, b3, c3, d3, e3], [a4, b4, c4, d4, e4]] ! i ! j
      = [[a0, a1, a2, a3, a4], [b0, b1, b2, b3, b4], [c0, c1, c2, c3, c4],
         [d0, d1, d2, d3, d4], [e0, e1, e2, e3, e4]] ! i ! j" for i j
    by (simp only: e)
  have "b0 = a1" "c0 = a2" "d0 = a3" "e0 = a4" "c1 = b2" "d1 = b3" "e1 = b4"
    "d2 = c3" "e2 = c4" "e3 = d4"
    using nth [of 0 1] nth [of 0 2] nth [of 0 3] nth [of 0 4] nth [of 1 2] nth [of 1 3]
      nth [of 1 4] nth [of 2 3] nth [of 2 4] nth [of 3 4]
    by simp_all
  then have "M = [[a0, a1, a2, a3, a4], [a1, b1, b2, b3, b4], [a2, b2, c2, c3, c4],
         [a3, b3, c3, d3, d4], [a4, b4, c4, d4, e4]]"
    unfolding M r0 r1 r2 r3 r4 by simp
  then show ?thesis by blast
qed

lemma sym22_explicit:
  assumes "mat_dim 2 2 M" and "symmetric M"
  shows "\<exists>a b d. M = [[a, b], [b, d]]"
proof -
  obtain a b c d where M: "M = [[a, b], [c, d]]"
    using mat22_explicit [OF assms(1)] by blast
  have "mat_transpose [[a, b], [c, d]] = [[a, c], [b, d]]"
    by (simp add: mat_transpose_def cols_def col_def upt_0_2)
  with assms(2) have e: "[[a, c], [b, d]] = [[a, b], [c, d]]"
    unfolding symmetric_def M by (simp only:)
  have "[[a, c], [b, d]] ! i ! j = [[a, b], [c, d]] ! i ! j" for i j
    by (simp only: e)
  from this [of 0 1] have "c = b" by simp
  then have "M = [[a, b], [b, d]]"
    unfolding M by simp
  then show ?thesis by blast
qed

lemma length_vec_add: "length (vec_add u v) = min (length u) (length v)"
  by (simp add: vec_add_def)

lemma length_mat_vec: "length (mat_vec A v) = length A"
  by (simp add: mat_vec_def)

lemma fold_invariant:
  assumes "Q a" and "\<And>i b. Q b \<Longrightarrow> Q (f i b)"
  shows "Q (fold f is a)"
  using assms(1)
proof (induction "is" arbitrary: a)
  case Nil
  then show ?case by simp
next
  case (Cons i "is")
  then show ?case by (simp add: assms(2))
qed

lemma mat33_explicit:
  assumes "mat_dim 3 3 M"
  shows "\<exists>a b c d e f g h k. M = [[a, b, c], [d, e, f], [g, h, k]]"
proof -
  from assms have "length M = 3" by (simp add: mat_dim_def)
  then obtain r0 r1 r2 where M: "M = [r0, r1, r2]" using vec3_explicit by blast
  with assms have "length r0 = 3" "length r1 = 3" "length r2 = 3"
    by (simp_all add: mat_dim_def)
  then show ?thesis unfolding M using vec3_explicit by metis
qed

lemma sym33_explicit:
  assumes "mat_dim 3 3 M" and "symmetric M"
  shows "\<exists>a b c d e f. M = [[a, b, c], [b, d, e], [c, e, f]]"
proof -
  obtain a b c d e f g h k where M: "M = [[a, b, c], [d, e, f], [g, h, k]]"
    using mat33_explicit [OF assms(1)] by blast
  have "mat_transpose [[a, b, c], [d, e, f], [g, h, k]] = [[a, d, g], [b, e, h], [c, f, k]]"
    by (simp add: mat_transpose_def cols_def col_def upt_0_3)
  with assms(2) have eq: "[[a, d, g], [b, e, h], [c, f, k]] = [[a, b, c], [d, e, f], [g, h, k]]"
    unfolding symmetric_def M by (simp only:)
  have nth: "[[a, d, g], [b, e, h], [c, f, k]] ! i ! j
      = [[a, b, c], [d, e, f], [g, h, k]] ! i ! j" for i j
    by (simp only: eq)
  have "d = b" "g = c" "h = f"
    using nth [of 0 1] nth [of 0 2] nth [of 1 2] by simp_all
  then have "M = [[a, b, c], [b, e, f], [c, f, k]]"
    unfolding M by simp
  then show ?thesis by blast
qed

lemma mat53_explicit:
  assumes "mat_dim 5 3 M"
  shows "\<exists>k00 k01 k02 k10 k11 k12 k20 k21 k22 k30 k31 k32 k40 k41 k42.
    M = [[k00, k01, k02], [k10, k11, k12], [k20, k21, k22], [k30, k31, k32], [k40, k41, k42]]"
proof -
  from assms have "length M = 5" by (simp add: mat_dim_def)
  then obtain r0 r1 r2 r3 r4 where M: "M = [r0, r1, r2, r3, r4]" using vec5_explicit by blast
  with assms have l: "length r0 = 3" "length r1 = 3" "length r2 = 3" "length r3 = 3"
    "length r4 = 3"
    by (simp_all add: mat_dim_def)
  obtain k00 k01 k02 where r0: "r0 = [k00, k01, k02]" using vec3_explicit [OF l(1)] by blast
  obtain k10 k11 k12 where r1: "r1 = [k10, k11, k12]" using vec3_explicit [OF l(2)] by blast
  obtain k20 k21 k22 where r2: "r2 = [k20, k21, k22]" using vec3_explicit [OF l(3)] by blast
  obtain k30 k31 k32 where r3: "r3 = [k30, k31, k32]" using vec3_explicit [OF l(4)] by blast
  obtain k40 k41 k42 where r4: "r4 = [k40, k41, k42]" using vec3_explicit [OF l(5)] by blast
  show ?thesis unfolding M r0 r1 r2 r3 r4 by blast
qed

lemma mat_dim_mat_add: "mat_dim r c A \<Longrightarrow> mat_dim r c B \<Longrightarrow> mat_dim r c (mat_add A B)"
proof (induction A arbitrary: B r)
  case Nil
  then show ?case by (simp add: mat_dim_def mat_add_def)
next
  case (Cons a A)
  then obtain b B' where B: "B = b # B'"
    by (cases B) (auto simp: mat_dim_def)
  from Cons.prems obtain r' where r: "r = Suc r'"
    by (cases r) (auto simp: mat_dim_def)
  from Cons.prems have "mat_dim r' c A" "mat_dim r' c B'" "length a = c" "length b = c"
    unfolding B r by (simp_all add: mat_dim_def)
  with Cons.IH [of r' B'] show ?case
    unfolding B r by (simp add: mat_dim_def mat_add_def vec_add_def)
qed

lemma mat_dim_outer: "length u = r \<Longrightarrow> length v = c \<Longrightarrow> mat_dim r c (outer u v)"
  by (auto simp: mat_dim_def outer_def vec_scale_def list_all_iff)

lemma mat_dim_mat_mult: "length A = r \<Longrightarrow> cols B = c \<Longrightarrow> mat_dim r c (mat_mult A B)"
  by (auto simp: mat_dim_def mat_mult_def list_all_iff)

lemma length_vec_sub: "length (vec_sub u v) = min (length u) (length v)"
  by (simp add: vec_sub_def)

lemma length_vec_scale: "length (vec_scale c v) = length v"
  by (simp add: vec_scale_def)

lemma length_col: "length (col M j) = length M"
  by (simp add: col_def)

lemma length_set_entry: "length (set_entry M r c a) = length M"
  by (simp add: set_entry_def)

lemma outer_step_symmetric:
  assumes "mat_dim 3 3 S" "symmetric S" "length zd = 3"
  shows "mat_dim 3 3 (mat_add S (outer (vec_scale w zd) zd))
     \<and> symmetric (mat_add S (outer (vec_scale w zd) zd))"
proof -
  obtain a b c d e f where S: "S = [[a, b, c], [b, d, e], [c, e, f]]"
    using sym33_explicit [OF assms(1,2)] by blast
  obtain u v t where zd: "zd = [u, v, t]"
    using vec3_explicit [OF assms(3)] by blast
  show ?thesis
    unfolding S zd
    by (simp add: mat_dim_def symmetric_def mat_transpose_def mat_add_def vec_add_def outer_def
        vec_scale_def cols_def col_def upt_0_3 algebra_simps)
qed

lemma Zero_3_3_symmetric: "mat_dim 3 3 (Zero 3 3) \<and> symmetric (Zero 3 3)"
  by (simp add: mat_dim_def symmetric_def mat_transpose_def Zero_def cols_def col_def upt_0_3
      eval_nat_numeral)

lemma add_symmetric_3:
  assumes "mat_dim 3 3 S" "symmetric S" "mat_dim 3 3 R" "symmetric R"
  shows "mat_dim 3 3 (mat_add S R) \<and> symmetric (mat_add S R)"
proof -
  obtain a b c d e f where S: "S = [[a, b, c], [b, d, e], [c, e, f]]"
    using sym33_explicit [OF assms(1,2)] by blast
  obtain a' b' c' d' e' f' where R: "R = [[a', b', c'], [b', d', e'], [c', e', f']]"
    using sym33_explicit [OF assms(3,4)] by blast
  show ?thesis
    unfolding S R
    by (simp add: mat_dim_def symmetric_def mat_transpose_def mat_add_def vec_add_def
        cols_def col_def upt_0_3)
qed

lemma mat_dim_cols: "mat_dim r c M \<Longrightarrow> 0 < r \<Longrightarrow> cols M = c"
  by (cases M) (auto simp: mat_dim_def cols_def)

lemma mat_dim_inverse_diagonal: "mat_dim r c A \<Longrightarrow> mat_dim r c (inverse_diagonal A)"
  by (simp add: mat_dim_def inverse_diagonal_def list_all_iff)

lemma mat_dim_llt_diagonal: "mat_dim r c A \<Longrightarrow> mat_dim r c (llt_diagonal A)"
  by (simp add: mat_dim_def llt_diagonal_def list_all_iff)

lemma Identity_5_5_symmetric: "mat_dim 5 5 (Identity 5 5) \<and> symmetric (Identity 5 5)"
  by (simp add: Identity_5_5 mat_dim_def symmetric_def mat_transpose_def cols_def col_def upt_0_5)

lemma mat_dim_set_entry:
  assumes "mat_dim m n M"
  shows "mat_dim m n (set_entry M r c a)"
proof -
  have "length (M[r := (M ! r)[c := a]] ! k) = n" if "k < length M" for k
    using that assms by (cases "k = r") (simp_all add: mat_dim_def list_all_length)
  then show ?thesis
    using assms by (simp add: mat_dim_def set_entry_def list_all_length)
qed

lemma set_entry_nth:
  assumes "mat_dim m n M" "r < m" "c < n"
  shows "set_entry M r c a ! r' ! c' = (if r' = r \<and> c' = c then a else M ! r' ! c')"
proof -
  have "r < length M" "c < length (M ! r)"
    using assms by (simp_all add: mat_dim_def list_all_length)
  then show ?thesis
    by (cases "r' = r"; cases "c' = c") (simp_all add: set_entry_def)
qed

lemma less_5_cases: "r < (5::nat) \<Longrightarrow> r = 0 \<or> r = 1 \<or> r = 2 \<or> r = 3 \<or> r = 4"
  by arith

lemma col_5_rows:
  assumes "mat_dim 5 n M"
  shows "col M j = [M ! 0 ! j, M ! 1 ! j, M ! 2 ! j, M ! 3 ! j, M ! 4 ! j]"
proof -
  from assms have "length M = 5" by (simp add: mat_dim_def)
  then obtain a b c d e where "M = [a, b, c, d, e]"
    by (auto simp: length_Suc_conv eval_nat_numeral)
  then show ?thesis by (simp add: col_def)
qed

lemma upt_0_7: "[0..<7] = [0, 1, 2, 3, 4, 5, 6]"
  by (simp add: upt_rec)

lemma upt_5_7: "[5..<7] = [5, 6]"
  by (simp add: upt_rec)

lemma upt_0_15: "[0..<15] = [0, 1, 2, 3, 4, 5, 6, 7, 8, 9, 10, 11, 12, 13, 14]"
  by (simp add: upt_rec)

lemma vec7_explicit: "length v = 7 \<Longrightarrow> \<exists>a b c d e f g. v = [a, b, c, d, e, f, g]"
  by (auto simp: length_Suc_conv eval_nat_numeral)

lemma mat77_rows:
  assumes "mat_dim 7 7 M"
  shows "\<exists>r0 r1 r2 r3 r4 r5 r6. M = [r0, r1, r2, r3, r4, r5, r6]
     \<and> length r0 = 7 \<and> length r1 = 7 \<and> length r2 = 7 \<and> length r3 = 7
     \<and> length r4 = 7 \<and> length r5 = 7 \<and> length r6 = 7"
proof -
  from assms have "length M = 7" by (simp add: mat_dim_def)
  then obtain r0 r1 r2 r3 r4 r5 r6 where M: "M = [r0, r1, r2, r3, r4, r5, r6]"
    using vec7_explicit by blast
  with assms show ?thesis by (simp add: mat_dim_def)
qed

section \<open>Facts about rounding\<close>

lemma round_even_of_int: "round_even (real_of_int n) = n"
  by (simp add: round_even_def)

lemma round_even_error: "\<bar>real_of_int (round_even m) - m\<bar> \<le> 1 / 2"
  unfolding round_even_def Let_def by (auto; linarith)

lemma round_even_le: "m \<le> real_of_int N \<Longrightarrow> round_even m \<le> N"
  unfolding round_even_def Let_def
  by (auto simp: floor_le_iff; linarith)

lemma round_even_unique:
  assumes "\<bar>m - real_of_int n\<bar> < 1 / 2"
  shows "round_even m = n"
proof (cases "real_of_int n \<le> m")
  case True
  then have "\<lfloor>m\<rfloor> = n" using assms by (intro floor_unique) linarith+
  then show ?thesis using assms True by (simp add: round_even_def Let_def)
next
  case False
  then have f: "\<lfloor>m\<rfloor> = n - 1" using assms by (intro floor_unique; simp; linarith?)
  have "1 / 2 < m - real_of_int (n - 1)" using assms False by simp
  then show ?thesis unfolding round_even_def Let_def f by simp
qed

lemma floor_log2_bounds:
  assumes "x \<noteq> (0::real)"
  shows "2 powi \<lfloor>log 2 \<bar>x\<bar>\<rfloor> \<le> \<bar>x\<bar> \<and> \<bar>x\<bar> < 2 powi (\<lfloor>log 2 \<bar>x\<bar>\<rfloor> + 1)"
proof -
  have "0 < \<bar>x\<bar>" using assms by simp
  from floor_log_eq_powr_iff [OF this, of 2 "\<lfloor>log 2 \<bar>x\<bar>\<rfloor>"]
  have "2 powr real_of_int \<lfloor>log 2 \<bar>x\<bar>\<rfloor> \<le> \<bar>x\<bar> \<and> \<bar>x\<bar> < 2 powr real_of_int (\<lfloor>log 2 \<bar>x\<bar>\<rfloor> + 1)"
    by simp
  then show ?thesis
    by (simp only: powr_real_of_int' [of 2, simplified])
qed

lemma floor_log2_eq:
  assumes "2 powi e \<le> \<bar>x\<bar>" "\<bar>x\<bar> < 2 powi (e + 1)"
  shows "\<lfloor>log 2 \<bar>x :: real\<bar>\<rfloor> = e"
proof -
  have "0 < (2::real) powi e" by simp
  then have "0 < \<bar>x\<bar>" using assms(1) by linarith
  from floor_log_eq_powr_iff [OF this, of 2 e] assms
  show ?thesis
    by (simp only: powr_real_of_int' [of 2, simplified])
qed

lemma floor_log2_less:
  assumes "x \<noteq> (0::real)" "\<bar>x\<bar> < 2 powi k"
  shows "\<lfloor>log 2 \<bar>x\<bar>\<rfloor> < k"
proof (rule ccontr)
  assume "\<not> \<lfloor>log 2 \<bar>x\<bar>\<rfloor> < k"
  then have "k \<le> \<lfloor>log 2 \<bar>x\<bar>\<rfloor>" by simp
  then have "(2::real) powi k \<le> 2 powi \<lfloor>log 2 \<bar>x\<bar>\<rfloor>"
    by (intro power_int_increasing) simp_all
  with floor_log2_bounds [OF assms(1)] assms(2) show False by linarith
qed


lemma round_binary_exact:
  assumes x: "x = real_of_int m * 2 powi j" and m: "\<bar>m\<bar> < 2 ^ p"
    and j: "emin - int p + 1 \<le> j"
  shows "round_binary p emin x = x"
proof (cases "x = 0")
  case True
  then show ?thesis by (simp add: round_binary_def)
next
  case False
  define k where "k = max \<lfloor>log 2 \<bar>x\<bar>\<rfloor> emin - int p + 1"
  have "\<bar>x\<bar> = real_of_int \<bar>m\<bar> * 2 powi j"
    unfolding x by (simp add: abs_mult)
  also have "\<dots> < 2 ^ p * 2 powi j"
  proof -
    have "real_of_int \<bar>m\<bar> < real_of_int (2 ^ p)" using m by (simp only: of_int_less_iff)
    then show ?thesis by simp
  qed
  also have "\<dots> = 2 powi (int p + j)"
    by (simp add: power_int_add)
  finally have "\<lfloor>log 2 \<bar>x\<bar>\<rfloor> < int p + j"
    by (rule floor_log2_less [OF False])
  then have kj: "k \<le> j" using j unfolding k_def by simp
  have "2 powi j = (2::real) powi (j - k) * 2 powi k"
    by (simp flip: power_int_add)
  also have "(2::real) powi (j - k) = 2 ^ nat (j - k)"
    using kj by (simp add: power_int_def)
  finally have pj: "2 powi j = (2::real) ^ nat (j - k) * 2 powi k" .
  have q: "x / 2 powi k = real_of_int (m * 2 ^ nat (j - k))"
    unfolding x pj by simp
  have "round_binary p emin x = real_of_int (round_even (x / 2 powi k)) * 2 powi k"
    using False by (simp add: round_binary_def Let_def k_def)
  also have "\<dots> = real_of_int (m * 2 ^ nat (j - k)) * 2 powi k"
    unfolding q round_even_of_int ..
  also have "\<dots> = x"
    unfolding x pj by simp
  finally show ?thesis .
qed

lemma round_binary_of_int:
  assumes "\<bar>m\<bar> < 2 ^ p" "emin - int p + 1 \<le> 0"
  shows "round_binary p emin (real_of_int m) = real_of_int m"
  using round_binary_exact [of "real_of_int m" m 0 p emin] assms by simp

lemma round_binary_eval:
  assumes "2 powi e \<le> \<bar>x\<bar>" "\<bar>x\<bar> < 2 powi (e + 1)" "emin \<le> e"
  shows "round_binary p emin x =
    real_of_int (round_even (x / 2 powi (e - int p + 1))) * 2 powi (e - int p + 1)"
proof -
  have "0 < (2::real) powi e" by simp
  then have "0 < \<bar>x\<bar>" using assms(1) by linarith
  then have "x \<noteq> 0" by simp
  moreover have "max \<lfloor>log 2 \<bar>x\<bar>\<rfloor> emin = e"
    using floor_log2_eq [OF assms(1,2)] assms(3) by simp
  ultimately show ?thesis by (simp add: round_binary_def Let_def)
qed

lemma round_binary_error:
  assumes "x \<noteq> 0"
  shows "\<bar>round_binary p emin x - x\<bar>
    \<le> 2 powi (max \<lfloor>log 2 \<bar>x\<bar>\<rfloor> emin - int p + 1) / 2"
proof -
  define u :: real where "u = 2 powi (max \<lfloor>log 2 \<bar>x\<bar>\<rfloor> emin - int p + 1)"
  have u: "0 < u" unfolding u_def by simp
  have "round_binary p emin x = real_of_int (round_even (x / u)) * u"
    using assms by (simp add: round_binary_def Let_def u_def)
  then have "round_binary p emin x - x = (real_of_int (round_even (x / u)) - x / u) * u"
    using u by (simp add: field_simps)
  then have "\<bar>round_binary p emin x - x\<bar> = \<bar>real_of_int (round_even (x / u)) - x / u\<bar> * u"
    using u by (simp add: abs_mult)
  also have "\<dots> \<le> 1 / 2 * u"
    using round_even_error [of "x / u"] u by (intro mult_right_mono) simp_all
  finally show ?thesis unfolding u_def by simp
qed

lemma round_binary_nonpos:
  assumes "x \<le> 0"
  shows "round_binary p emin x \<le> 0"
proof (cases "x = 0")
  case True
  then show ?thesis by (simp add: round_binary_def)
next
  case False
  define u :: real where "u = 2 powi (max \<lfloor>log 2 \<bar>x\<bar>\<rfloor> emin - int p + 1)"
  have u: "0 < u" unfolding u_def by simp
  have "x / u \<le> real_of_int 0" using assms u by (simp add: divide_nonpos_pos)
  then have "round_even (x / u) \<le> 0" by (rule round_even_le)
  then have "real_of_int (round_even (x / u)) * u \<le> 0"
    using u by (simp add: mult_le_0_iff)
  then show ?thesis using False by (simp add: round_binary_def Let_def u_def [symmetric])
qed

lemma round_binary_le:
  assumes nz: "x \<noteq> 0" and le: "x \<le> real_of_int N * 2 powi j"
    and k: "max \<lfloor>log 2 \<bar>x\<bar>\<rfloor> emin - int p + 1 \<le> j"
  shows "round_binary p emin x \<le> real_of_int N * 2 powi j"
proof -
  define k where "k = max \<lfloor>log 2 \<bar>x\<bar>\<rfloor> emin - int p + 1"
  have kj: "k \<le> j" using k unfolding k_def .
  have u: "0 < (2::real) powi k" by simp
  have "2 powi j = (2::real) powi (j - k) * 2 powi k"
    by (simp flip: power_int_add)
  also have "(2::real) powi (j - k) = 2 ^ nat (j - k)"
    using kj by (simp add: power_int_def)
  finally have pj: "2 powi j = (2::real) ^ nat (j - k) * 2 powi k" .
  have "x / 2 powi k \<le> real_of_int N * 2 powi j / 2 powi k"
    using le u by (simp add: divide_right_mono)
  also have "\<dots> = real_of_int (N * 2 ^ nat (j - k))"
    unfolding pj by simp
  finally have "round_even (x / 2 powi k) \<le> N * 2 ^ nat (j - k)"
    by (rule round_even_le)
  then have "real_of_int (round_even (x / 2 powi k)) \<le> real_of_int (N * 2 ^ nat (j - k))"
    by (simp only: of_int_le_iff)
  then have "real_of_int (round_even (x / 2 powi k)) * 2 powi k
      \<le> real_of_int (N * 2 ^ nat (j - k)) * 2 powi k"
    using u by (simp only: mult_le_cancel_right_pos)
  also have "\<dots> = real_of_int N * 2 powi j"
    unfolding pj by simp
  finally show ?thesis
    using nz by (simp add: round_binary_def Let_def k_def)
qed


lemma to_float_of_int:
  assumes "\<bar>m\<bar> < 2 ^ 24"
  shows "to_float (real_of_int m) = real_of_int m"
  unfolding to_float_def using assms by (intro round_binary_of_int) simp_all

lemma to_float_small:
  "to_float 0 = 0" "to_float 1 = 1" "to_float 2 = 2" "to_float 3 = 3" "to_float 4 = 4"
  "to_float 5 = 5"
  using to_float_of_int [of 0] to_float_of_int [of 1] to_float_of_int [of 2]
    to_float_of_int [of 3] to_float_of_int [of 4] to_float_of_int [of 5]
  by simp_all

lemma to_float_rounds: "to_float (1 + 1 / 2 ^ 30) = 1"
proof -
  have "to_float (1 + 1 / 2 ^ 30) =
      real_of_int (round_even ((1 + 1 / 2 ^ 30) / 2 powi (0 - int 24 + 1))) * 2 powi (0 - int 24 + 1)"
    unfolding to_float_def by (rule round_binary_eval) simp_all
  moreover have "round_even ((1 + 1 / 2 ^ 30) / 2 powi (0 - int 24 + 1)) = 2 ^ 23"
    by (rule round_even_unique) (simp add: power_int_minus)
  ultimately show ?thesis by (simp add: power_int_minus)
qed

lemma to_float_underflow: "to_float (1 / 2 ^ 160) = 0"
proof -
  have l: "\<lfloor>log 2 \<bar>1 / 2 ^ 160 :: real\<bar>\<rfloor> = - 160"
    by (rule floor_log2_eq) (simp_all add: power_int_minus field_simps)
  have "round_even ((1 / 2 ^ 160) / 2 powi (- 126 - int 24 + 1)) = 0"
    by (rule round_even_unique) (simp add: power_int_minus)
  then show ?thesis
    unfolding to_float_def round_binary_def Let_def l by simp
qed

lemma M_PI_pos: "0 < M_PI" "3 < M_PI" "M_PI < 4" "2 * M_PI < 7" "6 < 2 * M_PI"
  by (simp_all add: M_PI_def)

lemma to_double_error:
  assumes "\<bar>x\<bar> < 2 ^ 56"
  shows "\<bar>to_double x - x\<bar> \<le> 4"
proof (cases "x = 0")
  case True
  then show ?thesis by (simp add: to_double_def round_binary_def)
next
  case False
  have "\<bar>x\<bar> < 2 powi 56" using assms by simp
  from floor_log2_less [OF False this]
  have "max \<lfloor>log 2 \<bar>x\<bar>\<rfloor> (- 1022) - int 53 + 1 \<le> 3" by simp
  then have "(2::real) powi (max \<lfloor>log 2 \<bar>x\<bar>\<rfloor> (- 1022) - int 53 + 1) \<le> 2 powi 3"
    by (intro power_int_increasing) simp_all
  with round_binary_error [OF False, of 53 "- 1022"] show ?thesis
    unfolding to_double_def by simp
qed

lemma to_double_le_M_PI:
  assumes "x < M_PI"
  shows "to_double x \<le> M_PI"
proof (cases "x \<le> 0")
  case True
  then have "to_double x \<le> 0" unfolding to_double_def by (rule round_binary_nonpos)
  then show ?thesis using M_PI_pos(1) by linarith
next
  case False
  then have nz: "x \<noteq> 0" by simp
  have "\<bar>x\<bar> < 2 powi 2" using False assms M_PI_pos(3) by simp
  from floor_log2_less [OF nz this]
  have k: "max \<lfloor>log 2 \<bar>x\<bar>\<rfloor> (- 1022) - int 53 + 1 \<le> - 51" by simp
  have m: "M_PI = real_of_int 7074237752028440 * 2 powi (- 51)"
    by (simp add: M_PI_def power_int_minus)
  show ?thesis
    unfolding to_double_def m
    by (rule round_binary_le [OF nz _ k]) (use assms m in simp)
qed

lemma to_double_absorbs: "to_double (10 ^ 17 - 2 * M_PI) = 10 ^ 17"
proof -
  have "to_double (10 ^ 17 - 2 * M_PI) =
      real_of_int (round_even ((10 ^ 17 - 2 * M_PI) / 2 powi (56 - int 53 + 1))) * 2 powi (56 - int 53 + 1)"
    unfolding to_double_def by (rule round_binary_eval) (simp_all add: M_PI_def)
  moreover have "round_even ((10 ^ 17 - 2 * M_PI) / 2 powi (56 - int 53 + 1)) = 6250000000000000"
    by (rule round_even_unique) (simp add: M_PI_def)
  ultimately show ?thesis by simp
qed

section \<open>Properties of the angle normalization\<close>

lemma normalize_down_le: "normalize_down a \<le> pi"
  by (induction a rule: normalize_down.induct) (subst normalize_down.simps, simp)

lemma normalize_down_gt: "- pi < a \<Longrightarrow> - pi < normalize_down a"
  by (induction a rule: normalize_down.induct) (subst normalize_down.simps, simp)

lemma normalize_down_id: "a \<le> pi \<Longrightarrow> normalize_down a = a"
  by (subst normalize_down.simps) simp

lemma normalize_down_turns: "\<exists>k::int. normalize_down a = a + 2 * real_of_int k * pi"
proof (induction a rule: normalize_down.induct)
  case (1 a)
  show ?case
  proof (cases "pi < a")
    case True
    with 1 obtain k :: int
      where "normalize_down (a - 2 * pi) = a - 2 * pi + 2 * real_of_int k * pi"
      by blast
    then have "normalize_down a = a + 2 * real_of_int (k - 1) * pi"
      using True by (subst normalize_down.simps) (simp add: algebra_simps)
    then show ?thesis by blast
  next
    case False
    then have "normalize_down a = a + 2 * real_of_int 0 * pi"
      by (subst normalize_down.simps) simp
    then show ?thesis by blast
  qed
qed

lemma normalize_up_ge: "- pi \<le> normalize_up a"
  by (induction a rule: normalize_up.induct) (subst normalize_up.simps, simp)

lemma normalize_up_le: "a \<le> pi \<Longrightarrow> normalize_up a \<le> pi"
  by (induction a rule: normalize_up.induct) (subst normalize_up.simps, simp)

lemma normalize_up_id: "- pi \<le> a \<Longrightarrow> normalize_up a = a"
  by (subst normalize_up.simps) simp

lemma normalize_up_turns: "\<exists>k::int. normalize_up a = a + 2 * real_of_int k * pi"
proof (induction a rule: normalize_up.induct)
  case (1 a)
  show ?case
  proof (cases "a < - pi")
    case True
    with 1 obtain k :: int
      where "normalize_up (a + 2 * pi) = a + 2 * pi + 2 * real_of_int k * pi"
      by blast
    then have "normalize_up a = a + 2 * real_of_int (k + 1) * pi"
      using True by (subst normalize_up.simps) (simp add: algebra_simps)
    then show ?thesis by blast
  next
    case False
    then have "normalize_up a = a + 2 * real_of_int 0 * pi"
      by (subst normalize_up.simps) simp
    then show ?thesis by blast
  qed
qed

lemma normalize_angle_range: "- pi \<le> normalize_angle a \<and> normalize_angle a \<le> pi"
  unfolding normalize_angle_def
  by (simp add: normalize_up_ge normalize_up_le normalize_down_le)

lemma normalize_angle_id: "- pi \<le> a \<Longrightarrow> a \<le> pi \<Longrightarrow> normalize_angle a = a"
  unfolding normalize_angle_def
  by (simp add: normalize_down_id normalize_up_id)

lemma normalize_angle_gt: "- pi < a \<Longrightarrow> - pi < normalize_angle a"
proof -
  assume "- pi < a"
  then have "- pi < normalize_down a" by (rule normalize_down_gt)
  then show ?thesis
    unfolding normalize_angle_def by (simp add: normalize_up_id)
qed

lemma normalize_angle_turns: "\<exists>k::int. normalize_angle a = a + 2 * real_of_int k * pi"
proof -
  obtain k :: int where k: "normalize_down a = a + 2 * real_of_int k * pi"
    using normalize_down_turns by blast
  obtain m :: int
    where m: "normalize_up (normalize_down a) = normalize_down a + 2 * real_of_int m * pi"
    using normalize_up_turns by blast
  have "normalize_angle a = normalize_down a + 2 * real_of_int m * pi"
    unfolding normalize_angle_def by (rule m)
  also have "\<dots> = a + 2 * real_of_int (k + m) * pi"
    by (simp add: k algebra_simps)
  finally show ?thesis by blast
qed

lemma normalize_angle_past_pi: "normalize_angle (pi + 0.1) = 0.1 - pi"
proof -
  have "normalize_down (pi + 0.1) = normalize_down (0.1 - pi)"
    by (subst normalize_down.simps) simp
  also have "\<dots> = 0.1 - pi"
    using pi_ge_two by (subst normalize_down.simps) simp
  finally show ?thesis
    unfolding normalize_angle_def using pi_ge_two by (simp add: normalize_up_id)
qed

text \<open>
  C8, as the claim states it, fails at the angle \<open>- pi\<close>: neither loop runs, so the result
  is \<open>- pi\<close>, which is outside the half-open interval from \<open>- pi\<close> (excluded) to \<open>pi\<close>.
\<close>

theorem C8_normalize_angle_minus_pi_counterexample:
  "normalize_angle (- pi) = - pi \<and> normalize_angle (- pi) \<notin> {- pi <.. pi}"
  using pi_ge_zero by (simp add: normalize_angle_id)

text \<open>
  C8, amended: the angle normalization is the identity on every angle of the closed
  interval from \<open>- pi\<close> to \<open>pi\<close> (so on every angle that is above \<open>- pi\<close> and at most
  \<open>pi\<close>), it maps \<open>pi + 0.1\<close> to \<open>0.1 - pi\<close>, its result always lies in the closed
  interval from \<open>- pi\<close> to \<open>pi\<close>, and the result is above \<open>- pi\<close> whenever the angle is.
\<close>

theorem C8_normalize_angle_closed_interval:
  "(- pi \<le> a \<and> a \<le> pi \<longrightarrow> normalize_angle a = a)
   \<and> normalize_angle (pi + 0.1) = 0.1 - pi
   \<and> normalize_angle a \<in> {- pi .. pi}
   \<and> (- pi < a \<longrightarrow> normalize_angle a \<in> {- pi <.. pi})"
  using normalize_angle_range [of a]
  by (simp add: normalize_angle_id normalize_angle_past_pi normalize_angle_gt)

theorem C8_normalize_angle_closed_interval_witness:
  "(- pi \<le> 1 \<and> 1 \<le> pi) \<and> - pi < 1 \<and> normalize_angle 1 = 1
   \<and> normalize_angle 1 \<in> {- pi <.. pi}"
  using C8_normalize_angle_closed_interval [of 1] pi_ge_two by simp

section \<open>The normalization loops in double arithmetic\<close>

lemma normalize_down_double_returns:
  assumes "- (2 ^ 56) \<le> a" "a \<le> 2 ^ 56"
  shows "\<exists>b. normalize_down_double a = Some b \<and> - (2 ^ 56) \<le> b \<and> b \<le> M_PI
           \<and> (a \<le> M_PI \<longrightarrow> b = a)"
  using assms
proof (induction "nat \<lceil>a\<rceil>" arbitrary: a rule: less_induct)
  case less
  show ?case
  proof (cases "a > M_PI")
    case False
    then have "normalize_down_double a = Some a"
      by (subst normalize_down_double.simps) simp
    then show ?thesis using False less.prems by simp
  next
    case True
    define a' where "a' = to_double (a - 2 * M_PI)"
    have "\<bar>a - 2 * M_PI\<bar> < 2 ^ 56"
      using True less.prems M_PI_pos by simp
    from to_double_error [OF this]
    have e: "\<bar>a' - (a - 2 * M_PI)\<bar> \<le> 4" unfolding a'_def .
    have up: "a' \<le> a - 2" using e M_PI_pos by linarith
    have lo: "- 8 \<le> a'" using e True M_PI_pos by linarith
    have "\<lceil>a'\<rceil> \<le> \<lceil>a - 2\<rceil>" using up by (rule ceiling_mono)
    moreover have "\<lceil>a - 2\<rceil> = \<lceil>a\<rceil> - 2" by simp
    moreover have "0 < \<lceil>a\<rceil>" using True M_PI_pos by (simp add: ceiling_less_iff)
    ultimately have m: "nat \<lceil>a'\<rceil> < nat \<lceil>a\<rceil>" by linarith
    have "- (2 ^ 56) \<le> a'" using lo by simp
    moreover have "a' \<le> 2 ^ 56" using up less.prems by linarith
    ultimately obtain b where b: "normalize_down_double a' = Some b"
      "- (2 ^ 56) \<le> b" "b \<le> M_PI"
      using less.hyps [OF m] by blast
    have "normalize_down_double a = normalize_down_double a'"
      unfolding a'_def using True by (subst normalize_down_double.simps) simp
    then show ?thesis using b True by simp
  qed
qed

lemma normalize_up_double_returns:
  assumes "- (2 ^ 56) \<le> a" "a \<le> M_PI"
  shows "\<exists>b. normalize_up_double a = Some b \<and> - M_PI \<le> b \<and> b \<le> M_PI
           \<and> (- M_PI \<le> a \<longrightarrow> b = a)"
  using assms
proof (induction "nat \<lceil>- a\<rceil>" arbitrary: a rule: less_induct)
  case less
  show ?case
  proof (cases "a < - M_PI")
    case False
    then have "normalize_up_double a = Some a"
      by (subst normalize_up_double.simps) simp
    then show ?thesis using False less.prems by simp
  next
    case True
    define a' where "a' = to_double (a + 2 * M_PI)"
    have "\<bar>a + 2 * M_PI\<bar> < 2 ^ 56"
      using True less.prems M_PI_pos by simp
    from to_double_error [OF this]
    have e: "\<bar>a' - (a + 2 * M_PI)\<bar> \<le> 4" unfolding a'_def .
    have lo: "a + 2 \<le> a'" using e M_PI_pos by linarith
    have "a + 2 * M_PI < M_PI" using True by linarith
    then have hi: "a' \<le> M_PI" unfolding a'_def by (rule to_double_le_M_PI)
    have "\<lceil>- a'\<rceil> \<le> \<lceil>- a - 2\<rceil>" using lo by (intro ceiling_mono) linarith
    moreover have "\<lceil>- a - 2\<rceil> = \<lceil>- a\<rceil> - 2" by simp
    moreover have "0 < \<lceil>- a\<rceil>" using True M_PI_pos by (simp add: ceiling_less_iff)
    ultimately have m: "nat \<lceil>- a'\<rceil> < nat \<lceil>- a\<rceil>" by linarith
    have "- (2 ^ 56) \<le> a'" using lo less.prems by linarith
    then obtain b where b: "normalize_up_double a' = Some b" "- M_PI \<le> b" "b \<le> M_PI"
      using less.hyps [OF m _ hi] by blast
    have "normalize_up_double a = normalize_up_double a'"
      unfolding a'_def using True by (subst normalize_up_double.simps) simp
    then show ?thesis using b True by simp
  qed
qed

lemma normalize_angle_double_returns:
  assumes "\<bar>a\<bar> \<le> 2 ^ 56"
  shows "\<exists>b. normalize_angle_double a = Some b \<and> - M_PI \<le> b \<and> b \<le> M_PI
           \<and> (- M_PI \<le> a \<and> a \<le> M_PI \<longrightarrow> b = a)"
proof -
  have "- (2 ^ 56) \<le> a" "a \<le> 2 ^ 56" using assms by linarith+
  from normalize_down_double_returns [OF this]
  obtain c where c: "normalize_down_double a = Some c" "- (2 ^ 56) \<le> c" "c \<le> M_PI"
    "a \<le> M_PI \<longrightarrow> c = a" by blast
  from normalize_up_double_returns [OF c(2,3)]
  obtain b where b: "normalize_up_double c = Some b" "- M_PI \<le> b" "b \<le> M_PI"
    "- M_PI \<le> c \<longrightarrow> b = c" by blast
  have "normalize_angle_double a = Some b"
    by (simp add: normalize_angle_double_def c(1) b(1))
  then show ?thesis using b c(4) by auto
qed

lemma normalize_down_double_stuck:
  assumes "normalize_down_double a = Some b"
  shows "a \<noteq> 10 ^ 17"
proof (rule normalize_down_double.raw_induct [where P = "\<lambda>a b. a \<noteq> 10 ^ 17", OF _ assms])
  fix f :: "real \<Rightarrow> real option" and x y :: real
  assume ih: "\<And>x y. f x = Some y \<Longrightarrow> x \<noteq> 10 ^ 17"
    and st: "(if M_PI < x then f (to_double (x - 2 * M_PI)) else Some x) = Some y"
  show "x \<noteq> 10 ^ 17"
  proof
    assume x: "x = 10 ^ 17"
    have "M_PI < x" unfolding x using M_PI_pos(3) by simp
    with st have "f (to_double (x - 2 * M_PI)) = Some y" by (simp only: if_True)
    then have "f (10 ^ 17) = Some y" unfolding x to_double_absorbs .
    from ih [OF this] show False by (simp only: not_True_eq_False simp_thms)
  qed
qed

lemma normalize_down_double_absorbed: "normalize_down_double (10 ^ 17) = None"
proof (cases "normalize_down_double (10 ^ 17)")
  case None
  then show ?thesis .
next
  case (Some b)
  from normalize_down_double_stuck [OF this] show ?thesis by (simp only: simp_thms)
qed

lemma normalize_angle_double_absorbed: "normalize_angle_double (10 ^ 17) = None"
  unfolding normalize_angle_double_def normalize_down_double_absorbed by (simp only: option.case)

lemma to_double_7: "to_double (7 - 2 * M_PI) = 7 - 2 * M_PI"
  unfolding to_double_def
  by (rule round_binary_exact [where m = 100882699483741 and j = "- 47"])
    (simp_all add: M_PI_def power_int_minus)

lemma normalize_angle_double_7: "normalize_angle_double 7 = Some (7 - 2 * M_PI)"
proof -
  have "M_PI < 7" by (simp add: M_PI_def)
  then have "normalize_down_double 7 = normalize_down_double (7 - 2 * M_PI)"
    by (subst normalize_down_double.simps) (simp only: if_True to_double_7)
  also have "\<dots> = Some (7 - 2 * M_PI)"
    by (subst normalize_down_double.simps) (simp add: M_PI_def)
  finally have d: "normalize_down_double 7 = Some (7 - 2 * M_PI)" .
  have u: "normalize_up_double (7 - 2 * M_PI) = Some (7 - 2 * M_PI)"
    by (subst normalize_up_double.simps) (simp add: M_PI_def)
  show ?thesis
    unfolding normalize_angle_double_def d by (simp add: u)
qed

section \<open>The weights after construction\<close>

lemma weights_UKF_ctor: "weights (UKF_ctor raw) = (- 2 / 5) # replicate 14 (1 / 10)"
  by (simp add: UKF_ctor_def Let_def upt_1_15 eval_nat_numeral)

text \<open>
  C5: after construction \<open>n_x = 5\<close>, \<open>n_aug = 7\<close> and \<open>lambda = 3 - n_x\<close>; the weight
  vector has \<open>2 * n_aug + 1 = 15\<close> coefficients, the first is
  \<open>lambda / (lambda + n_aug)\<close>, each of the other fourteen is
  \<open>1 / (2 * (n_aug + lambda))\<close>, and the weights sum to 1.
\<close>

theorem C5_weights_after_construction:
  "(let u = UKF_ctor raw; l = lambda u; n = real (n_aug u)
    in n_x u = 5 \<and> n_aug u = 7 \<and> l = 3 - 5
       \<and> length (weights u) = 2 * n_aug u + 1
       \<and> length (weights u) = 15
       \<and> weights u ! 0 = l / (l + n)
       \<and> drop 1 (weights u) = replicate 14 (1 / (2 * (n + l)))
       \<and> sum_list (weights u) = 1)"
  unfolding Let_def weights_UKF_ctor
  by (simp add: UKF_ctor_def Let_def sum_list_replicate)

section \<open>The guarded quotients\<close>

lemma checked_div_Some: "b \<noteq> 0 \<Longrightarrow> checked_div a b = Some (a / b)"
  by (simp add: checked_div_def)

lemma SigmaPointPrediction_col_straight:
  assumes "\<bar>Xsig_aug ! 4 ! i\<bar> \<le> 0.001"
  shows "SigmaPointPrediction_col delta_t Xsig_aug i =
    Some [Xsig_aug ! 0 ! i + Xsig_aug ! 2 ! i * delta_t * cos (Xsig_aug ! 3 ! i)
            + 0.5 * Xsig_aug ! 5 ! i * (delta_t * delta_t) * cos (Xsig_aug ! 3 ! i),
          Xsig_aug ! 1 ! i + Xsig_aug ! 2 ! i * delta_t * sin (Xsig_aug ! 3 ! i)
            + 0.5 * Xsig_aug ! 5 ! i * (delta_t * delta_t) * sin (Xsig_aug ! 3 ! i),
          Xsig_aug ! 2 ! i + Xsig_aug ! 5 ! i * delta_t,
          Xsig_aug ! 3 ! i + Xsig_aug ! 4 ! i * delta_t + 0.5 * Xsig_aug ! 6 ! i * (delta_t * delta_t),
          Xsig_aug ! 4 ! i + Xsig_aug ! 6 ! i * delta_t]"
  using assms by (simp add: SigmaPointPrediction_col_def Let_def)

lemma SigmaPointPrediction_col_turn:
  assumes "\<bar>Xsig_aug ! 4 ! i\<bar> > 0.001"
  shows "SigmaPointPrediction_col delta_t Xsig_aug i =
    Some [Xsig_aug ! 0 ! i + Xsig_aug ! 2 ! i / Xsig_aug ! 4 ! i
              * (sin (Xsig_aug ! 3 ! i + Xsig_aug ! 4 ! i * delta_t) - sin (Xsig_aug ! 3 ! i))
            + 0.5 * Xsig_aug ! 5 ! i * (delta_t * delta_t) * cos (Xsig_aug ! 3 ! i),
          Xsig_aug ! 1 ! i + Xsig_aug ! 2 ! i / Xsig_aug ! 4 ! i
              * (cos (Xsig_aug ! 3 ! i) - cos (Xsig_aug ! 3 ! i + Xsig_aug ! 4 ! i * delta_t))
            + 0.5 * Xsig_aug ! 5 ! i * (delta_t * delta_t) * sin (Xsig_aug ! 3 ! i),
          Xsig_aug ! 2 ! i + Xsig_aug ! 5 ! i * delta_t,
          Xsig_aug ! 3 ! i + Xsig_aug ! 4 ! i * delta_t + 0.5 * Xsig_aug ! 6 ! i * (delta_t * delta_t),
          Xsig_aug ! 4 ! i + Xsig_aug ! 6 ! i * delta_t]"
proof -
  from assms have "Xsig_aug ! 4 ! i \<noteq> 0" by auto
  then show ?thesis
    using assms by (simp add: SigmaPointPrediction_col_def Let_def checked_div_Some)
qed

lemma SigmaPointPrediction_col_length:
  "\<exists>p. SigmaPointPrediction_col delta_t Xsig_aug i = Some p \<and> length p = 5"
proof (cases "\<bar>Xsig_aug ! 4 ! i\<bar> > 0.001")
  case True
  then show ?thesis by (simp add: SigmaPointPrediction_col_turn)
next
  case False
  then show ?thesis by (simp add: SigmaPointPrediction_col_straight)
qed

lemma SigmaPointPrediction_loop_Some:
  "\<exists>Xp'. SigmaPointPrediction_loop delta_t Xsig_aug is Xp = Some Xp'"
proof (induction "is" arbitrary: Xp)
  case Nil
  show ?case by simp
next
  case (Cons i "is")
  obtain p where "SigmaPointPrediction_col delta_t Xsig_aug i = Some p"
    using SigmaPointPrediction_col_length by blast
  then show ?case using Cons.IH by simp
qed

lemma SigmaPointPrediction_Some:
  "\<exists>Xp'. SigmaPointPrediction delta_t Xsig_aug s = Some (s\<lparr>Xsig_pred := Xp'\<rparr>)"
proof -
  obtain Xp' where "SigmaPointPrediction_loop delta_t Xsig_aug [0..<2 * n_aug s + 1] (Xsig_pred s) = Some Xp'"
    using SigmaPointPrediction_loop_Some by blast
  then have "SigmaPointPrediction delta_t Xsig_aug s = Some (s\<lparr>Xsig_pred := Xp'\<rparr>)"
    unfolding SigmaPointPrediction_def by (simp only: option.case)
  then show ?thesis by blast
qed



lemma UpdateRadar_Zsig_col_near:
  assumes "sqrt (Xp ! 0 ! i * Xp ! 0 ! i + Xp ! 1 ! i * Xp ! 1 ! i) \<le> 0.0001"
  shows "UpdateRadar_Zsig_col Xp i =
    Some [sqrt (Xp ! 0 ! i * Xp ! 0 ! i + Xp ! 1 ! i * Xp ! 1 ! i), atan2 (Xp ! 1 ! i) (Xp ! 0 ! i), 0]"
proof -
  have "0 \<le> sqrt (Xp ! 0 ! i * Xp ! 0 ! i + Xp ! 1 ! i * Xp ! 1 ! i)" by simp
  with assms have "\<not> \<bar>sqrt (Xp ! 0 ! i * Xp ! 0 ! i + Xp ! 1 ! i * Xp ! 1 ! i)\<bar> > 0.0001"
    by linarith
  then show ?thesis
    by (simp add: UpdateRadar_Zsig_col_def Let_def)
qed

lemma UpdateRadar_Zsig_col_far:
  assumes "sqrt (Xp ! 0 ! i * Xp ! 0 ! i + Xp ! 1 ! i * Xp ! 1 ! i) > 0.0001"
  shows "UpdateRadar_Zsig_col Xp i =
    Some [sqrt (Xp ! 0 ! i * Xp ! 0 ! i + Xp ! 1 ! i * Xp ! 1 ! i), atan2 (Xp ! 1 ! i) (Xp ! 0 ! i),
          (Xp ! 0 ! i * (cos (Xp ! 3 ! i) * Xp ! 2 ! i) + Xp ! 1 ! i * (sin (Xp ! 3 ! i) * Xp ! 2 ! i))
            / sqrt (Xp ! 0 ! i * Xp ! 0 ! i + Xp ! 1 ! i * Xp ! 1 ! i)]"
proof -
  let ?c = "sqrt (Xp ! 0 ! i * Xp ! 0 ! i + Xp ! 1 ! i * Xp ! 1 ! i)"
  from assms have nz: "?c \<noteq> 0" by auto
  from assms have guard: "\<bar>?c\<bar> > 0.0001" by auto
  show ?thesis
    unfolding UpdateRadar_Zsig_col_def Let_def
    by (simp only: guard if_True checked_div_Some [OF nz] option.case)
qed

lemma UpdateRadar_Zsig_col_length:
  "\<exists>zc. UpdateRadar_Zsig_col Xp i = Some zc \<and> length zc = 3"
proof (cases "sqrt (Xp ! 0 ! i * Xp ! 0 ! i + Xp ! 1 ! i * Xp ! 1 ! i) > 0.0001")
  case True
  then show ?thesis by (simp add: UpdateRadar_Zsig_col_far)
next
  case False
  then show ?thesis by (simp add: UpdateRadar_Zsig_col_near)
qed

lemma UpdateRadar_Zsig_loop_Some:
  "\<exists>Zsig'. UpdateRadar_Zsig_loop Xp is Zsig = Some Zsig'"
proof (induction "is" arbitrary: Zsig)
  case Nil
  show ?case by simp
next
  case (Cons i "is")
  obtain zc where "UpdateRadar_Zsig_col Xp i = Some zc"
    using UpdateRadar_Zsig_col_length by blast
  then show ?case using Cons.IH by simp
qed

text \<open>
  C9: in the sigma-point propagation the straight-line formulas are used whenever the
  magnitude of the yaw rate is at most 0.001, and the quotient by the yaw rate is taken
  only above that threshold, where the yaw rate is not zero; in the radar measurement
  model the range rate is 0 whenever the range is at most 0.0001, and the quotient by
  the range is taken only above that threshold, where the range is not zero. Neither
  loop body and neither loop ever reaches a division by zero.
\<close>

theorem C9_division_guards:
  "(let p_x = Xsig_aug ! 0 ! i; p_y = Xsig_aug ! 1 ! i; v = Xsig_aug ! 2 ! i;
        yaw = Xsig_aug ! 3 ! i; yawd = Xsig_aug ! 4 ! i; nu_a = Xsig_aug ! 5 ! i;
        nu_yawdd = Xsig_aug ! 6 ! i; dt = delta_t
    in (\<bar>yawd\<bar> \<le> 0.001 \<longrightarrow>
          SigmaPointPrediction_col dt Xsig_aug i =
            Some [p_x + v * dt * cos yaw + 0.5 * nu_a * (dt * dt) * cos yaw,
                  p_y + v * dt * sin yaw + 0.5 * nu_a * (dt * dt) * sin yaw,
                  v + nu_a * dt,
                  yaw + yawd * dt + 0.5 * nu_yawdd * (dt * dt),
                  yawd + nu_yawdd * dt])
       \<and> (\<bar>yawd\<bar> > 0.001 \<longrightarrow>
            yawd \<noteq> 0
            \<and> SigmaPointPrediction_col dt Xsig_aug i =
                Some [p_x + v / yawd * (sin (yaw + yawd * dt) - sin yaw)
                        + 0.5 * nu_a * (dt * dt) * cos yaw,
                      p_y + v / yawd * (cos yaw - cos (yaw + yawd * dt))
                        + 0.5 * nu_a * (dt * dt) * sin yaw,
                      v + nu_a * dt,
                      yaw + yawd * dt + 0.5 * nu_yawdd * (dt * dt),
                      yawd + nu_yawdd * dt])
       \<and> SigmaPointPrediction_col dt Xsig_aug i \<noteq> None
       \<and> SigmaPointPrediction dt Xsig_aug s \<noteq> None)
   \<and> (let p_x = Xp ! 0 ! j; p_y = Xp ! 1 ! j; v = Xp ! 2 ! j; yaw = Xp ! 3 ! j;
           rho = sqrt (p_x * p_x + p_y * p_y)
       in (rho \<le> 0.0001 \<longrightarrow>
             UpdateRadar_Zsig_col Xp j = Some [rho, atan2 p_y p_x, 0])
          \<and> (rho > 0.0001 \<longrightarrow>
               rho \<noteq> 0
               \<and> UpdateRadar_Zsig_col Xp j =
                   Some [rho, atan2 p_y p_x,
                         (p_x * (cos yaw * v) + p_y * (sin yaw * v)) / rho])
          \<and> UpdateRadar_Zsig_col Xp j \<noteq> None
          \<and> UpdateRadar_Zsig_loop Xp js Zsig \<noteq> None)"
proof -
  have a: "SigmaPointPrediction_col delta_t Xsig_aug i \<noteq> None"
    using SigmaPointPrediction_col_length [of delta_t Xsig_aug i] by auto
  have b: "SigmaPointPrediction delta_t Xsig_aug s \<noteq> None"
    using SigmaPointPrediction_Some [of delta_t Xsig_aug s] by auto
  have c: "UpdateRadar_Zsig_col Xp j \<noteq> None"
    using UpdateRadar_Zsig_col_length [of Xp j] by auto
  have d: "UpdateRadar_Zsig_loop Xp js Zsig \<noteq> None"
    using UpdateRadar_Zsig_loop_Some [of Xp js Zsig] by auto
  have e: "\<bar>Xsig_aug ! 4 ! i\<bar> > 0.001 \<Longrightarrow> Xsig_aug ! 4 ! i \<noteq> 0"
    by auto
  have f: "sqrt (Xp ! 0 ! j * Xp ! 0 ! j + Xp ! 1 ! j * Xp ! 1 ! j) > 0.0001
      \<Longrightarrow> sqrt (Xp ! 0 ! j * Xp ! 0 ! j + Xp ! 1 ! j * Xp ! 1 ! j) \<noteq> 0"
    by auto
  show ?thesis
    unfolding Let_def
    using a b c d e f
      SigmaPointPrediction_col_straight [of Xsig_aug i delta_t]
      SigmaPointPrediction_col_turn [of Xsig_aug i delta_t]
      UpdateRadar_Zsig_col_near [of Xp j] UpdateRadar_Zsig_col_far [of Xp j]
    by blast
qed

theorem C9_division_guards_witness:
  "\<bar>[[1], [2], [3], [0], [0], [0], [0]] ! 4 ! 0\<bar> \<le> (0.001 :: real)
   \<and> SigmaPointPrediction_col 1 [[1], [2], [3], [0], [0], [0], [0]] 0 = Some [4, 2, 3, 0, 0]
   \<and> sqrt ([[0], [0], [1], [0]] ! 0 ! 0 * [[0], [0], [1], [0]] ! 0 ! 0
           + [[0], [0], [1], [0]] ! 1 ! 0 * [[0], [0], [1], [0]] ! 1 ! 0) \<le> (0.0001 :: real)
   \<and> UpdateRadar_Zsig_col [[0], [0], [1], [0]] 0 = Some [0, 0, 0]
   \<and> \<bar>[[0], [0], [1], [0], [1], [0], [0]] ! 4 ! 0\<bar> > (0.001 :: real)
   \<and> SigmaPointPrediction_col 0 [[0], [0], [1], [0], [1], [0], [0]] 0 = Some [0, 0, 1, 0, 1]
   \<and> sqrt ([[1], [0], [2], [0]] ! 0 ! 0 * [[1], [0], [2], [0]] ! 0 ! 0
           + [[1], [0], [2], [0]] ! 1 ! 0 * [[1], [0], [2], [0]] ! 1 ! 0) > (0.0001 :: real)
   \<and> UpdateRadar_Zsig_col [[1], [0], [2], [0]] 0 = Some [1, 0, 2]"
  using
    C9_division_guards [of "[[1], [2], [3], [0], [0], [0], [0]]" 0 1 _ "[[0], [0], [1], [0]]" 0]
    C9_division_guards [of "[[0], [0], [1], [0], [1], [0], [0]]" 0 0 _ "[[1], [0], [2], [0]]" 0]
  by (simp add: Let_def atan2_def)

section \<open>The first measurement\<close>

lemma polar_origin: "(rho * cos phi = 0 \<and> rho * sin phi = 0) = (rho = (0::real))"
proof
  assume "rho * cos phi = 0 \<and> rho * sin phi = 0"
  then have "rho = 0 \<or> (cos phi = 0 \<and> sin phi = 0)" by auto
  moreover have "\<not> (cos phi = 0 \<and> sin phi = 0)"
    by (auto dest: sin_zero_abs_cos_one)
  ultimately show "rho = 0" by blast
qed simp

lemma ProcessMeasurement_first_radar:
  assumes "\<not> is_initialized s" "sensor_type mp = RADAR"
  shows "ProcessMeasurement llt minverse s mp =
    (let rho = to_float (raw_measurements mp ! 0);
         phi = to_float (raw_measurements mp ! 1);
         px = to_float (rho * to_float (cos phi));
         py = to_float (rho * to_float (sin phi))
     in if px = 0 \<and> py = 0 then Some (s\<lparr>ukf_x := [0, 0, 0, 0, 0]\<rparr>, mp)
        else Some (s\<lparr>ukf_x := [px, py, 0, 0, 0], ukf_P := setIdentity (ukf_P s),
                     time_us := timestamp mp, is_initialized := True\<rparr>, mp))"
  using assms by (auto simp add: ProcessMeasurement_def Let_def)

lemma ProcessMeasurement_first_laser:
  assumes "\<not> is_initialized s" "sensor_type mp = LASER"
  shows "ProcessMeasurement llt minverse s mp =
    (let px = to_float (raw_measurements mp ! 0);
         py = to_float (raw_measurements mp ! 1)
     in if px = 0 \<and> py = 0 then Some (s\<lparr>ukf_x := [0, 0, 0, 0, 0]\<rparr>, mp)
        else Some (s\<lparr>ukf_x := [px, py, 0, 0, 0], ukf_P := setIdentity (ukf_P s),
                     time_us := timestamp mp, is_initialized := True\<rparr>, mp))"
  using assms by (auto simp add: ProcessMeasurement_def Let_def)



text \<open>
  A first reading that underflows in single precision is a reading at the origin: the
  lidar reading \<open>(1 / 2 ^ 160, 0)\<close> is rejected.
\<close>

lemma ProcessMeasurement_first_underflow:
  assumes "\<not> is_initialized s"
  shows "ProcessMeasurement llt minverse s
      \<lparr>sensor_type = LASER, raw_measurements = [1 / 2 ^ 160, 0], timestamp = t\<rparr>
    = Some (s\<lparr>ukf_x := [0, 0, 0, 0, 0]\<rparr>,
            \<lparr>sensor_type = LASER, raw_measurements = [1 / 2 ^ 160, 0], timestamp = t\<rparr>)"
proof -
  let ?mp = "\<lparr>sensor_type = LASER, raw_measurements = [1 / 2 ^ 160, 0], timestamp = t\<rparr>"
  have k: "sensor_type ?mp = LASER" by simp
  have r: "to_float (raw_measurements ?mp ! 0) = 0" "to_float (raw_measurements ?mp ! 1) = 0"
    by (simp_all only: MeasurementPackage.select_convs nth_Cons_0 nth_Cons_Suc One_nat_def
        to_float_underflow to_float_small)
  show ?thesis
    unfolding ProcessMeasurement_first_laser [OF assms k] Let_def r
    by (simp only: simp_thms if_True)
qed

lemma fresh_filter_fields:
  "\<not> is_initialized fresh_filter" "ukf_x fresh_filter = [1, 2, 3, 4, 5]"
  "ukf_P fresh_filter = Zero 5 5"
  by (simp_all add: fresh_filter_def UKF_ctor_def unconstructed_def Let_def)


text \<open>
  C7, as the claim states it, fails in its general form. The range, the bearing and the
  position of the first measurement are variables of type \<^verbatim>\<open>float\<close>, so the state
  holds the position in single precision: the radar reading with range \<open>1 + 1 / 2 ^ 30\<close>
  and bearing 0 initializes the filter with the state \<open>[1, 0, 0, 0, 0]\<close>, whose first
  coefficient is not \<open>rho * cos phi\<close>.
\<close>

theorem C7_position_in_single_precision_counterexample:
  "ProcessMeasurement llt_diagonal inverse_diagonal fresh_filter
        \<lparr>sensor_type = RADAR, raw_measurements = [1 + 1 / 2 ^ 30, 0, 0], timestamp = 9\<rparr>
      = Some (fresh_filter\<lparr>ukf_x := [1, 0, 0, 0, 0], ukf_P := Identity 5 5, time_us := 9,
                is_initialized := True\<rparr>,
              \<lparr>sensor_type = RADAR, raw_measurements = [1 + 1 / 2 ^ 30, 0, 0], timestamp = 9\<rparr>)
   \<and> (1 + 1 / 2 ^ 30) * cos 0 \<noteq> (1 :: real)"
  by (simp add: ProcessMeasurement_first_radar fresh_filter_fields Let_def to_float_small
      to_float_rounds [simplified] setIdentity_5_5 mat_dim_Zero)

text \<open>
  C7, amended: on the first accepted measurement of a filter whose covariance is 5 by 5,
  a radar reading with range 5 and bearing 0 sets the state to \<open>[5, 0, 0, 0, 0]\<close> and a
  lidar reading \<open>(3, 4)\<close> sets it to \<open>[3, 4, 0, 0, 0]\<close>. In general the position is
  computed in single precision: for a radar reading the range and the bearing are
  rounded to \<^verbatim>\<open>float\<close>, and so are the cosine, the sine and the two products
  \<open>rho * cos phi\<close> and \<open>rho * sin phi\<close>; for a lidar reading the two coordinates are
  rounded to \<^verbatim>\<open>float\<close>; the other three components are 0. The measurement is accepted
  when that position is not \<open>(0, 0)\<close>. In every case the covariance becomes the 5 by 5
  identity, the timestamp of the measurement is stored and the filter is initialized;
  no other field changes (the cached sigma points and the NIS values are the old ones,
  so neither a prediction nor an update has run) and the measurement is returned as it
  came. The general statement is for readings within the range of \<^verbatim>\<open>float\<close>.
\<close>

theorem C7_first_measurement_initializes:
  assumes "\<not> is_initialized s" and "mat_dim 5 5 (ukf_P s)"
  shows "(let mp = \<lparr>sensor_type = RADAR, raw_measurements = [5, 0, rho_dot], timestamp = t\<rparr>
          in ProcessMeasurement llt minverse s mp =
               Some (s\<lparr>ukf_x := [5, 0, 0, 0, 0], ukf_P := Identity 5 5, time_us := t,
                        is_initialized := True\<rparr>, mp))
       \<and> (let mp = \<lparr>sensor_type = LASER, raw_measurements = [3, 4], timestamp = t\<rparr>
          in ProcessMeasurement llt minverse s mp =
               Some (s\<lparr>ukf_x := [3, 4, 0, 0, 0], ukf_P := Identity 5 5, time_us := t,
                        is_initialized := True\<rparr>, mp))
       \<and> (let rho = to_float (raw_measurements mp ! 0);
               phi = to_float (raw_measurements mp ! 1);
               px = to_float (rho * to_float (cos phi));
               py = to_float (rho * to_float (sin phi))
          in sensor_type mp = RADAR \<and> \<bar>raw_measurements mp ! 0\<bar> < 2 ^ 127
               \<and> \<bar>raw_measurements mp ! 1\<bar> < 2 ^ 127 \<and> \<not> (px = 0 \<and> py = 0) \<longrightarrow>
             ProcessMeasurement llt minverse s mp =
               Some (s\<lparr>ukf_x := [px, py, 0, 0, 0], ukf_P := Identity 5 5,
                        time_us := timestamp mp, is_initialized := True\<rparr>, mp))
       \<and> (let px = to_float (raw_measurements mp ! 0);
               py = to_float (raw_measurements mp ! 1)
          in sensor_type mp = LASER \<and> \<bar>raw_measurements mp ! 0\<bar> < 2 ^ 127
               \<and> \<bar>raw_measurements mp ! 1\<bar> < 2 ^ 127 \<and> \<not> (px = 0 \<and> py = 0) \<longrightarrow>
             ProcessMeasurement llt minverse s mp =
               Some (s\<lparr>ukf_x := [px, py, 0, 0, 0], ukf_P := Identity 5 5,
                        time_us := timestamp mp, is_initialized := True\<rparr>, mp))
       \<and> Identity 5 5 = [[1, 0, 0, 0, 0], [0, 1, 0, 0, 0], [0, 0, 1, 0, 0],
                          [0, 0, 0, 1, 0], [0, 0, 0, 0, 1]]"
  unfolding Let_def
  using assms
  by (simp add: ProcessMeasurement_first_radar ProcessMeasurement_first_laser Let_def
      to_float_small setIdentity_5_5 Identity_5_5 [symmetric])

theorem C7_first_measurement_initializes_witness:
  "\<not> is_initialized fresh_filter \<and> mat_dim 5 5 (ukf_P fresh_filter)
   \<and> ProcessMeasurement llt_diagonal inverse_diagonal fresh_filter
        \<lparr>sensor_type = LASER, raw_measurements = [3, 4], timestamp = 0\<rparr>
      = Some (tracking_filter, \<lparr>sensor_type = LASER, raw_measurements = [3, 4], timestamp = 0\<rparr>)
   \<and> ProcessMeasurement llt_diagonal inverse_diagonal fresh_filter
        \<lparr>sensor_type = RADAR, raw_measurements = [5, 0, 1], timestamp = 0\<rparr>
      = Some (fresh_filter\<lparr>ukf_x := [5, 0, 0, 0, 0], ukf_P := Identity 5 5, time_us := 0,
                        is_initialized := True\<rparr>, \<lparr>sensor_type = RADAR, raw_measurements = [5, 0, 1], timestamp = 0\<rparr>)
   \<and> sensor_type \<lparr>sensor_type = RADAR, raw_measurements = [2, 0, 1], timestamp = 9\<rparr> = RADAR
   \<and> \<bar>[2, 0, 1 :: real] ! 0\<bar> < 2 ^ 127 \<and> \<bar>[2, 0, 1 :: real] ! 1\<bar> < 2 ^ 127
   \<and> to_float (to_float 2 * to_float (cos (to_float 0))) = 2
   \<and> to_float (to_float 2 * to_float (sin (to_float 0))) = 0
   \<and> ProcessMeasurement llt_diagonal inverse_diagonal fresh_filter
        \<lparr>sensor_type = RADAR, raw_measurements = [2, 0, 1], timestamp = 9\<rparr>
      = Some (fresh_filter\<lparr>ukf_x := [2, 0, 0, 0, 0], ukf_P := Identity 5 5, time_us := 9,
                        is_initialized := True\<rparr>, \<lparr>sensor_type = RADAR, raw_measurements = [2, 0, 1], timestamp = 9\<rparr>)
   \<and> sensor_type \<lparr>sensor_type = LASER, raw_measurements = [1, 2], timestamp = 9\<rparr> = LASER
   \<and> \<bar>[1, 2 :: real] ! 0\<bar> < 2 ^ 127 \<and> \<bar>[1, 2 :: real] ! 1\<bar> < 2 ^ 127
   \<and> to_float 1 = 1 \<and> to_float 2 = 2
   \<and> ProcessMeasurement llt_diagonal inverse_diagonal fresh_filter
        \<lparr>sensor_type = LASER, raw_measurements = [1, 2], timestamp = 9\<rparr>
      = Some (fresh_filter\<lparr>ukf_x := [1, 2, 0, 0, 0], ukf_P := Identity 5 5, time_us := 9,
                        is_initialized := True\<rparr>, \<lparr>sensor_type = LASER, raw_measurements = [1, 2], timestamp = 9\<rparr>)"
proof -
  have f: "\<not> is_initialized fresh_filter" "mat_dim 5 5 (ukf_P fresh_filter)"
    by (simp_all add: fresh_filter_fields mat_dim_Zero)
  have r: "to_float (to_float 2 * to_float (cos (to_float 0))) = 2"
    "to_float (to_float 2 * to_float (sin (to_float 0))) = 0"
    by (simp_all add: to_float_small)
  note radar = C7_first_measurement_initializes [OF f, where llt = llt_diagonal
      and minverse = inverse_diagonal and t = 0 and rho_dot = 1
      and mp = "\<lparr>sensor_type = RADAR, raw_measurements = [2, 0, 1], timestamp = 9\<rparr>"]
  note laser = C7_first_measurement_initializes [OF f, where llt = llt_diagonal
      and minverse = inverse_diagonal and t = 0 and rho_dot = 1
      and mp = "\<lparr>sensor_type = LASER, raw_measurements = [1, 2], timestamp = 9\<rparr>"]
  have a: "ProcessMeasurement llt_diagonal inverse_diagonal fresh_filter
        \<lparr>sensor_type = LASER, raw_measurements = [3, 4], timestamp = 0\<rparr>
      = Some (tracking_filter, \<lparr>sensor_type = LASER, raw_measurements = [3, 4], timestamp = 0\<rparr>)"
    using radar unfolding Let_def by (simp add: tracking_filter_def)
  have b: "ProcessMeasurement llt_diagonal inverse_diagonal fresh_filter
        \<lparr>sensor_type = RADAR, raw_measurements = [5, 0, 1], timestamp = 0\<rparr>
      = Some (fresh_filter\<lparr>ukf_x := [5, 0, 0, 0, 0], ukf_P := Identity 5 5, time_us := 0,
                        is_initialized := True\<rparr>, \<lparr>sensor_type = RADAR, raw_measurements = [5, 0, 1], timestamp = 0\<rparr>)"
    using radar unfolding Let_def by blast
  have c: "ProcessMeasurement llt_diagonal inverse_diagonal fresh_filter
        \<lparr>sensor_type = RADAR, raw_measurements = [2, 0, 1], timestamp = 9\<rparr>
      = Some (fresh_filter\<lparr>ukf_x := [2, 0, 0, 0, 0], ukf_P := Identity 5 5, time_us := 9,
                        is_initialized := True\<rparr>, \<lparr>sensor_type = RADAR, raw_measurements = [2, 0, 1], timestamp = 9\<rparr>)"
    using radar unfolding Let_def by (simp add: to_float_small)
  have d: "ProcessMeasurement llt_diagonal inverse_diagonal fresh_filter
        \<lparr>sensor_type = LASER, raw_measurements = [1, 2], timestamp = 9\<rparr>
      = Some (fresh_filter\<lparr>ukf_x := [1, 2, 0, 0, 0], ukf_P := Identity 5 5, time_us := 9,
                        is_initialized := True\<rparr>, \<lparr>sensor_type = LASER, raw_measurements = [1, 2], timestamp = 9\<rparr>)"
    using laser unfolding Let_def by (simp add: to_float_small)
  show ?thesis
    using f r a b c d by (simp add: to_float_small)
qed

text \<open>
  C2, as the claim states it, fails for the state: the first measurement is written into
  \<open>ukf_x\<close> before the position is compared with the origin, so a filter whose state held
  \<open>[1, 2, 3, 4, 5]\<close> holds \<open>[0, 0, 0, 0, 0]\<close> after the rejected lidar reading \<open>(0, 0)\<close>.
\<close>

theorem C2_state_overwritten_counterexample:
  "ukf_x fresh_filter = [1, 2, 3, 4, 5]
   \<and> map_option (ukf_x \<circ> fst)
       (ProcessMeasurement llt_diagonal inverse_diagonal fresh_filter
          \<lparr>sensor_type = LASER, raw_measurements = [0, 0], timestamp = 0\<rparr>) = Some [0, 0, 0, 0, 0]"
  by (simp add: ProcessMeasurement_first_laser fresh_filter_fields to_float_small)

text \<open>
  C2, amended: a first measurement whose position is exactly the origin (a lidar reading
  \<open>(0, 0)\<close>, or a radar reading whose polar position maps to the origin, which is the
  case exactly when its range is 0) is rejected: the filter remains uninitialized, and
  the covariance, the timestamp and every other field but the state are unchanged; the
  state is overwritten with \<open>[0, 0, 0, 0, 0]\<close>.
\<close>

theorem C2_origin_rejected_state_zeroed:
  assumes "\<not> is_initialized s"
  shows "(sensor_type mp = LASER \<and> raw_measurements mp ! 0 = 0 \<and> raw_measurements mp ! 1 = 0
            \<longrightarrow> ProcessMeasurement llt minverse s mp = Some (s\<lparr>ukf_x := [0, 0, 0, 0, 0]\<rparr>, mp))
       \<and> (sensor_type mp = RADAR \<and> raw_measurements mp ! 0 * cos (raw_measurements mp ! 1) = 0
            \<and> raw_measurements mp ! 0 * sin (raw_measurements mp ! 1) = 0
            \<longrightarrow> raw_measurements mp ! 0 = 0 \<and> ProcessMeasurement llt minverse s mp = Some (s\<lparr>ukf_x := [0, 0, 0, 0, 0]\<rparr>, mp))
       \<and> (sensor_type mp = RADAR \<and> raw_measurements mp ! 0 = 0
            \<longrightarrow> ProcessMeasurement llt minverse s mp = Some (s\<lparr>ukf_x := [0, 0, 0, 0, 0]\<rparr>, mp))"
  using assms polar_origin [of "raw_measurements mp ! 0" "raw_measurements mp ! 1"]
  by (simp add: ProcessMeasurement_first_radar ProcessMeasurement_first_laser Let_def
      to_float_small)

theorem C2_origin_rejected_state_zeroed_witness:
  "\<not> is_initialized fresh_filter
   \<and> ProcessMeasurement llt_diagonal inverse_diagonal fresh_filter
          \<lparr>sensor_type = LASER, raw_measurements = [0, 0], timestamp = 7\<rparr>
       = Some (fresh_filter\<lparr>ukf_x := [0, 0, 0, 0, 0]\<rparr>, \<lparr>sensor_type = LASER, raw_measurements = [0, 0], timestamp = 7\<rparr>)
   \<and> ProcessMeasurement llt_diagonal inverse_diagonal fresh_filter
          \<lparr>sensor_type = RADAR, raw_measurements = [0, 1, 2], timestamp = 7\<rparr>
       = Some (fresh_filter\<lparr>ukf_x := [0, 0, 0, 0, 0]\<rparr>, \<lparr>sensor_type = RADAR, raw_measurements = [0, 1, 2], timestamp = 7\<rparr>)"
  using C2_origin_rejected_state_zeroed [where s = fresh_filter and llt = llt_diagonal and minverse = inverse_diagonal
      and mp = "\<lparr>sensor_type = LASER, raw_measurements = [0, 0], timestamp = 7\<rparr>"]
    C2_origin_rejected_state_zeroed [where s = fresh_filter and llt = llt_diagonal and minverse = inverse_diagonal
      and mp = "\<lparr>sensor_type = RADAR, raw_measurements = [0, 1, 2], timestamp = 7\<rparr>"]
  by (simp add: fresh_filter_fields)

section \<open>The radar update normalizes its argument in place\<close>

lemma UpdateRadar_body_Some: "\<exists>s'. UpdateRadar_body minverse s z = Some (s', z)"
proof -
  obtain Zsig where "UpdateRadar_Zsig_loop (Xsig_pred s) [0..<2 * n_aug s + 1]
      (Zero 3 (2 * n_aug s + 1)) = Some Zsig"
    using UpdateRadar_Zsig_loop_Some by blast
  then show ?thesis
    unfolding UpdateRadar_body_def Let_def by (simp only: option.case) blast
qed

lemma UpdateRadar_body_vector:
  assumes "UpdateRadar_body minverse s z = Some (s', z')"
  shows "z' = z"
  using assms UpdateRadar_body_Some [of minverse s z] by auto

lemma UpdateRadar_Some:
  "\<exists>s'. UpdateRadar minverse s z = Some (s', z[1 := normalize_angle (z ! 1)])"
  unfolding UpdateRadar_def by (rule UpdateRadar_body_Some)

text \<open>
  C3, as the claim states it, fails for a bearing so large that the rounding absorbs a
  full turn: the doubles around \<open>10 ^ 17\<close> are 16 apart, so \<open>10 ^ 17 - 2 * M_PI\<close> is
  rounded back to \<open>10 ^ 17\<close>, the first loop of \<^verbatim>\<open>UpdateRadar\<close> runs forever, and the
  call on the measurement \<open>[1, 10 ^ 17, 0]\<close> does not return.
\<close>

theorem C3_absorbed_turn_never_returns_counterexample:
  "M_PI < 10 ^ 17 \<and> to_double (10 ^ 17 - 2 * M_PI) = 10 ^ 17
   \<and> normalize_down_double (10 ^ 17) = None
   \<and> UpdateRadar_double inverse_diagonal tracking_filter [1, 10 ^ 17, 0] = None"
proof -
  have "M_PI < 10 ^ 17" using M_PI_pos(3) by simp
  moreover have "[1, 10 ^ 17, 0 :: real] ! 1 = 10 ^ 17" by simp
  then have "UpdateRadar_double inverse_diagonal tracking_filter [1, 10 ^ 17, 0] = None"
    unfolding UpdateRadar_double_def
    by (simp only: normalize_angle_double_absorbed option.case)
  ultimately show ?thesis
    using to_double_absorbs normalize_down_double_absorbed by (simp only: simp_thms)
qed

text \<open>
  C3, amended: for every call of the radar update on a measurement vector of three
  coefficients whose bearing (the coefficient 1) has a magnitude of at most \<open>2 ^ 56\<close>,
  the two loops at the entry of the call terminate, and they replace the bearing in
  place by a value between \<open>- M_PI\<close> and \<open>M_PI\<close>, both included, which is the bearing
  itself when it is already there; the range and the range rate (the coefficients 0
  and 2) are unchanged. Nothing after the two loops writes to the vector, so this is
  the vector the caller holds when the call returns. In exact arithmetic the normalized
  bearing is the old bearing plus a whole number of turns and lies between \<open>- pi\<close>
  and \<open>pi\<close>; in double arithmetic every turn taken off or added is rounded.
\<close>

theorem C3_radar_update_normalizes_bearing_in_place:
  assumes "length z = 3" and "\<bar>z ! 1\<bar> \<le> 2 ^ 56"
  shows "\<exists>b. normalize_angle_double (z ! 1) = Some b
           \<and> - M_PI \<le> b \<and> b \<le> M_PI
           \<and> (- M_PI \<le> z ! 1 \<and> z ! 1 \<le> M_PI \<longrightarrow> b = z ! 1)
           \<and> UpdateRadar_double minverse s z = UpdateRadar_body minverse s (z[1 := b])
           \<and> (\<forall>s' z'. UpdateRadar_double minverse s z = Some (s', z') \<longrightarrow> z' = z[1 := b])
           \<and> length (z[1 := b]) = 3 \<and> z[1 := b] ! 0 = z ! 0 \<and> z[1 := b] ! 1 = b
           \<and> z[1 := b] ! 2 = z ! 2
           \<and> (\<exists>k::int. normalize_angle (z ! 1) = z ! 1 + 2 * real_of_int k * pi)
           \<and> - pi \<le> normalize_angle (z ! 1) \<and> normalize_angle (z ! 1) \<le> pi"
proof -
  from normalize_angle_double_returns [OF assms(2)]
  obtain b where b: "normalize_angle_double (z ! 1) = Some b" "- M_PI \<le> b" "b \<le> M_PI"
    "- M_PI \<le> z ! 1 \<and> z ! 1 \<le> M_PI \<longrightarrow> b = z ! 1"
    by blast
  have d: "UpdateRadar_double minverse s z = UpdateRadar_body minverse s (z[1 := b])"
    unfolding UpdateRadar_double_def b(1) by (simp only: option.case)
  have v: "\<forall>s' z'. UpdateRadar_double minverse s z = Some (s', z') \<longrightarrow> z' = z[1 := b]"
    unfolding d using UpdateRadar_body_vector by blast
  have f: "length (z[1 := b]) = 3 \<and> z[1 := b] ! 0 = z ! 0 \<and> z[1 := b] ! 1 = b
      \<and> z[1 := b] ! 2 = z ! 2"
    using assms(1) by simp
  show ?thesis
    using b d v f normalize_angle_turns [of "z ! 1"] normalize_angle_range [of "z ! 1"]
    by blast
qed

theorem C3_radar_update_normalizes_bearing_in_place_witness:
  "length [1, 7, 0 :: real] = 3 \<and> \<bar>[1, 7, 0 :: real] ! 1\<bar> \<le> 2 ^ 56
   \<and> normalize_angle_double 7 = Some (7 - 2 * M_PI)
   \<and> - M_PI \<le> 7 - 2 * M_PI \<and> 7 - 2 * M_PI \<le> M_PI
   \<and> (\<exists>s'. UpdateRadar_double inverse_diagonal tracking_filter [1, 7, 0]
          = Some (s', [1, 7 - 2 * M_PI, 0]))
   \<and> length [1, 1, 0 :: real] = 3 \<and> \<bar>[1, 1, 0 :: real] ! 1\<bar> \<le> 2 ^ 56
   \<and> - M_PI \<le> [1, 1, 0 :: real] ! 1 \<and> [1, 1, 0 :: real] ! 1 \<le> M_PI
   \<and> normalize_angle_double 1 = Some 1
   \<and> (\<exists>s'. UpdateRadar_double inverse_diagonal tracking_filter [1, 1, 0]
          = Some (s', [1, 1, 0]))"
proof -
  have l: "length [1, 7, 0 :: real] = 3" and r: "\<bar>[1, 7, 0 :: real] ! 1\<bar> \<le> 2 ^ 56"
    by simp_all
  from C3_radar_update_normalizes_bearing_in_place [OF l r, of inverse_diagonal tracking_filter]
  obtain b where b: "normalize_angle_double ([1, 7, 0] ! 1) = Some b"
    "- M_PI \<le> b" "b \<le> M_PI"
    "UpdateRadar_double inverse_diagonal tracking_filter [1, 7, 0]
       = UpdateRadar_body inverse_diagonal tracking_filter ([1, 7, 0][1 := b])"
    by blast
  have b7: "b = 7 - 2 * M_PI" using b(1) by (simp add: normalize_angle_double_7)
  obtain s' where s': "UpdateRadar_body inverse_diagonal tracking_filter ([1, 7, 0][1 := b])
      = Some (s', [1, 7, 0][1 := b])"
    using UpdateRadar_body_Some by blast
  have first: "normalize_angle_double 7 = Some (7 - 2 * M_PI)
      \<and> - M_PI \<le> 7 - 2 * M_PI \<and> 7 - 2 * M_PI \<le> M_PI
      \<and> (\<exists>s'. UpdateRadar_double inverse_diagonal tracking_filter [1, 7, 0]
             = Some (s', [1, 7 - 2 * M_PI, 0]))"
    using b s' unfolding b7 by (auto simp add: normalize_angle_double_7)
  have l1: "length [1, 1, 0 :: real] = 3" and r1: "\<bar>[1, 1, 0 :: real] ! 1\<bar> \<le> 2 ^ 56"
    and i1: "- M_PI \<le> [1, 1, 0 :: real] ! 1 \<and> [1, 1, 0 :: real] ! 1 \<le> M_PI"
    using M_PI_pos by simp_all
  from C3_radar_update_normalizes_bearing_in_place [OF l1 r1, of inverse_diagonal tracking_filter]
  obtain c where c: "normalize_angle_double ([1, 1, 0] ! 1) = Some c"
    "- M_PI \<le> [1, 1, 0 :: real] ! 1 \<and> [1, 1, 0 :: real] ! 1 \<le> M_PI \<longrightarrow> c = [1, 1, 0] ! 1"
    "UpdateRadar_double inverse_diagonal tracking_filter [1, 1, 0]
       = UpdateRadar_body inverse_diagonal tracking_filter ([1, 1, 0][1 := c])"
    by blast
  have c1: "c = 1" using c(2) i1 by simp
  obtain s'' where s'': "UpdateRadar_body inverse_diagonal tracking_filter ([1, 1, 0][1 := c])
      = Some (s'', [1, 1, 0][1 := c])"
    using UpdateRadar_body_Some by blast
  have second: "normalize_angle_double 1 = Some 1
      \<and> (\<exists>s'. UpdateRadar_double inverse_diagonal tracking_filter [1, 1, 0]
             = Some (s', [1, 1, 0]))"
    using c(1,3) s'' unfolding c1 by auto
  show ?thesis
    using l r first l1 r1 i1 second by blast
qed

section \<open>The lidar update with a zero innovation\<close>

lemma H_laser_UKF_ctor: "H_laser (UKF_ctor raw) = [[1, 0, 0, 0, 0], [0, 1, 0, 0, 0]]"
  by (simp add: UKF_ctor_def Let_def setIdentity_Zero Identity_def upt_rec)

lemma H_laser_projects:
  assumes "length v = 5"
  shows "mat_vec [[1, 0, 0, 0, 0], [0, 1, 0, 0, 0]] v = [v ! 0, v ! 1]"
proof -
  obtain a b c d e where "v = [a, b, c, d, e]"
    using vec5_explicit [OF assms] by blast
  then show ?thesis by (simp add: mat_vec_def dot_def)
qed

text \<open>
  C10: for a filter with a state of five coefficients, a covariance of five rows and the
  lidar measurement matrix of the constructor, the predicted lidar measurement is the
  position \<open>(px, py)\<close> of the state; the lidar update with exactly that measurement has
  the innovation \<open>[0, 0]\<close>, leaves the state unchanged and stores the lidar NIS value 0,
  where the NIS is the innovation, as a row, times the inverse of the innovation
  covariance \<open>S\<close>, times the innovation.
\<close>

theorem C10_lidar_zero_innovation:
  assumes "length (ukf_x s) = 5" and "length (ukf_P s) = 5"
    and "H_laser s = [[1, 0, 0, 0, 0], [0, 1, 0, 0, 0]]"
  shows "(let z_pred = mat_vec (H_laser s) (ukf_x s);
              z = [ukf_x s ! 0, ukf_x s ! 1];
              s' = UpdateLidar minverse s z
          in z_pred = z \<and> vec_sub z z_pred = [0, 0]
             \<and> ukf_x s' = ukf_x s
             \<and> NIS_laser s' = NIS minverse z z_pred (UpdateLidar_S s)
             \<and> NIS minverse z z_pred (UpdateLidar_S s)
                 = dot (vec_mat (vec_sub z z_pred) (minverse (UpdateLidar_S s))) (vec_sub z z_pred)
             \<and> NIS_laser s' = 0)"
proof -
  let ?z = "[ukf_x s ! 0, ukf_x s ! 1]"
  have zp: "mat_vec (H_laser s) (ukf_x s) = ?z"
    using assms(1,3) by (simp add: H_laser_projects)
  have y: "vec_sub ?z ?z = replicate 2 0"
    by (simp add: vec_sub_def eval_nat_numeral)
  have x': "ukf_x (UpdateLidar minverse s ?z) = ukf_x s"
    unfolding UpdateLidar_def Let_def zp y
    using assms(1,2)
    by (simp add: mat_vec_zeros length_mat_mult vec_add_zeros)
  have nis: "NIS_laser (UpdateLidar minverse s ?z) = NIS minverse ?z ?z (UpdateLidar_S s)"
    by (simp add: UpdateLidar_def Let_def zp)
  have zero: "NIS minverse ?z ?z (UpdateLidar_S s) = 0"
    unfolding NIS_def Let_def y by (rule dot_zeros)
  show ?thesis
    unfolding Let_def zp
    using x' nis zero by (simp add: NIS_def Let_def vec_sub_def)
qed

lemma tracking_filter_lidar:
  "ukf_x tracking_filter = [3, 4, 0, 0, 0]" "ukf_P tracking_filter = Identity 5 5"
  "H_laser tracking_filter = [[1, 0, 0, 0, 0], [0, 1, 0, 0, 0]]"
  by (simp_all add: tracking_filter_def fresh_filter_def H_laser_UKF_ctor)

theorem C10_lidar_zero_innovation_witness:
  "length (ukf_x tracking_filter) = 5 \<and> length (ukf_P tracking_filter) = 5
   \<and> H_laser tracking_filter = [[1, 0, 0, 0, 0], [0, 1, 0, 0, 0]]
   \<and> ukf_x (UpdateLidar inverse_diagonal tracking_filter [3, 4]) = [3, 4, 0, 0, 0]
   \<and> NIS_laser (UpdateLidar inverse_diagonal tracking_filter [3, 4]) = 0"
proof -
  have a: "length (ukf_x tracking_filter) = 5"
    and b: "length (ukf_P tracking_filter) = 5"
    and c: "H_laser tracking_filter = [[1, 0, 0, 0, 0], [0, 1, 0, 0, 0]]"
    by (simp_all add: tracking_filter_lidar Identity_5_5)
  have z: "[ukf_x tracking_filter ! 0, ukf_x tracking_filter ! 1] = [3, 4]"
    by (simp add: tracking_filter_lidar)
  from C10_lidar_zero_innovation [OF a b c, of inverse_diagonal]
  have "ukf_x (UpdateLidar inverse_diagonal tracking_filter [3, 4]) = ukf_x tracking_filter"
    and "NIS_laser (UpdateLidar inverse_diagonal tracking_filter [3, 4]) = 0"
    unfolding Let_def z by blast+
  then show ?thesis
    using a b c by (simp add: tracking_filter_lidar)
qed

section \<open>Symmetry of the covariance after an update\<close>

lemma lidar_covariance_symmetric:
  fixes p00 :: real
  assumes "b = c"
  shows "symmetric (mat_mult
     (mat_sub (Identity 5 5)
        (mat_mult (mat_mult (mat_mult
           [[p00, p01, p02, p03, p04], [p01, p11, p12, p13, p14], [p02, p12, p22, p23, p24],
            [p03, p13, p23, p33, p34], [p04, p14, p24, p34, p44]]
           (mat_transpose [[1, 0, 0, 0, 0], [0, 1, 0, 0, 0]]))
           [[a, b], [c, d]]) [[1, 0, 0, 0, 0], [0, 1, 0, 0, 0]]))
     [[p00, p01, p02, p03, p04], [p01, p11, p12, p13, p14], [p02, p12, p22, p23, p24],
      [p03, p13, p23, p33, p34], [p04, p14, p24, p34, p44]])"
  unfolding assms
  by (simp add: symmetric_def mat_transpose_def mat_mult_def mat_sub_def vec_sub_def Identity_def
      cols_def col_def dot_def upt_0_2 upt_0_5 algebra_simps)

lemma UpdateLidar_symmetric:
  assumes P: "mat_dim 5 5 (ukf_P s)" "symmetric (ukf_P s)"
    and x: "length (ukf_x s) = 5"
    and H: "H_laser s = [[1, 0, 0, 0, 0], [0, 1, 0, 0, 0]]"
    and R: "mat_dim 2 2 (R_laser s)" "symmetric (R_laser s)"
    and inv: "is_inverse 2 (UpdateLidar_S s) (minverse (UpdateLidar_S s))"
  shows "symmetric (ukf_P (UpdateLidar minverse s z))"
proof -
  obtain p00 p01 p02 p03 p04 p11 p12 p13 p14 p22 p23 p24 p33 p34 p44
    where Pe: "ukf_P s = [[p00, p01, p02, p03, p04], [p01, p11, p12, p13, p14],
         [p02, p12, p22, p23, p24], [p03, p13, p23, p33, p34], [p04, p14, p24, p34, p44]]"
    using sym55_explicit [OF P] by blast
  obtain r00 r01 r11 where Re: "R_laser s = [[r00, r01], [r01, r11]]"
    using sym22_explicit [OF R] by blast
  have S: "UpdateLidar_S s = [[p00 + r00, p01 + r01], [p01 + r01, p11 + r11]]"
    unfolding UpdateLidar_S_def Let_def H Pe Re
    by (simp add: mat_transpose_def mat_mult_def mat_add_def vec_add_def cols_def col_def
        dot_def upt_0_2 upt_0_5)
  from inv have "mat_dim 2 2 (minverse (UpdateLidar_S s))"
    by (simp add: is_inverse_def)
  then obtain a b c d where Si: "minverse (UpdateLidar_S s) = [[a, b], [c, d]]"
    using mat22_explicit by blast
  from inv have "mat_mult (UpdateLidar_S s) (minverse (UpdateLidar_S s)) = Identity 2 2"
    by (simp add: is_inverse_def)
  then have "mat_mult (UpdateLidar_S s) [[a, b], [c, d]] = Identity 2 2"
    by (simp only: Si)
  then have bc: "b = c"
    unfolding S by (rule inverse22_symmetric)
  have n: "length (vec_add (ukf_x s) (mat_vec (mat_mult (mat_mult (ukf_P s)
      (mat_transpose (H_laser s))) (minverse (UpdateLidar_S s)))
      (vec_sub z (mat_vec (H_laser s) (ukf_x s))))) = 5"
    using x P(1) by (simp add: length_vec_add length_mat_vec length_mat_mult mat_dim_def)
  have "ukf_P (UpdateLidar minverse s z) =
    mat_mult (mat_sub (Identity 5 5)
        (mat_mult (mat_mult (mat_mult (ukf_P s) (mat_transpose (H_laser s)))
           (minverse (UpdateLidar_S s))) (H_laser s))) (ukf_P s)"
    unfolding UpdateLidar_def Let_def n by simp
  then show ?thesis
    unfolding H Pe Si using bc by (simp only: lidar_covariance_symmetric)
qed

lemma UpdateRadar_Zsig_loop_length:
  "UpdateRadar_Zsig_loop Xp is Zsig = Some Zsig' \<Longrightarrow> length Zsig' = length Zsig"
proof (induction "is" arbitrary: Zsig)
  case Nil
  then show ?case by simp
next
  case (Cons i "is")
  then show ?case
    by (auto simp: length_set_entry split: option.splits)
qed

lemma UpdateRadar_z_pred_length:
  assumes "length Zsig = 3"
  shows "length (UpdateRadar_z_pred s Zsig) = 3"
  unfolding UpdateRadar_z_pred_def
  by (rule fold_invariant)
    (simp_all add: setZero_vec_def length_vec_add length_vec_scale length_col assms)

lemma UpdateRadar_S_symmetric:
  assumes "length Zsig = 3" "length z_pred = 3" "mat_dim 3 3 (R_radar s)" "symmetric (R_radar s)"
  shows "mat_dim 3 3 (UpdateRadar_S s Zsig z_pred) \<and> symmetric (UpdateRadar_S s Zsig z_pred)"
proof -
  let ?f = "\<lambda>i S. let z_diff = vec_sub (col Zsig i) z_pred;
                       z_diff = z_diff[1 := normalize_angle (z_diff ! 1)]
                   in mat_add S (outer (vec_scale (weights s ! i) z_diff) z_diff)"
  have "mat_dim 3 3 (fold ?f [0..<2 * n_aug s + 1] (setZero (Zero 3 3)))
      \<and> symmetric (fold ?f [0..<2 * n_aug s + 1] (setZero (Zero 3 3)))"
  proof (rule fold_invariant)
    show "mat_dim 3 3 (setZero (Zero 3 3)) \<and> symmetric (setZero (Zero 3 3))"
      by (simp add: setZero_Zero Zero_3_3_symmetric)
  next
    fix i b
    assume "mat_dim 3 3 b \<and> symmetric b"
    moreover have "length ((vec_sub (col Zsig i) z_pred)
        [1 := normalize_angle (vec_sub (col Zsig i) z_pred ! 1)]) = 3"
      using assms(1,2) by (simp add: length_vec_sub length_col)
    ultimately show "mat_dim 3 3 (?f i b) \<and> symmetric (?f i b)"
      unfolding Let_def by (simp add: outer_step_symmetric)
  qed
  then show ?thesis
    unfolding UpdateRadar_S_def Let_def using assms(3,4) by (simp add: add_symmetric_3)
qed

lemma UpdateRadar_Tc_dim:
  assumes "n_x s = 5" "length (ukf_x s) = 5" "length (Xsig_pred s) = 5"
    "length Zsig = 3" "length z_pred = 3"
  shows "mat_dim 5 3 (UpdateRadar_Tc s Zsig z_pred)"
  unfolding UpdateRadar_Tc_def
proof (rule fold_invariant)
  show "mat_dim 5 3 (setZero (Zero (n_x s) 3))"
    by (simp add: assms(1) setZero_Zero mat_dim_Zero)
next
  fix i b
  assume b: "mat_dim 5 3 b"
  let ?zd = "(vec_sub (col Zsig i) z_pred)[1 := normalize_angle (vec_sub (col Zsig i) z_pred ! 1)]"
  let ?xd = "(vec_sub (col (Xsig_pred s) i) (ukf_x s))
      [3 := normalize_angle (vec_sub (col (Xsig_pred s) i) (ukf_x s) ! 3)]"
  have "length ?zd = 3" "length (vec_scale (weights s ! i) ?xd) = 5"
    using assms by (simp_all add: length_vec_sub length_col length_vec_scale)
  then have "mat_dim 5 3 (outer (vec_scale (weights s ! i) ?xd) ?zd)"
    by (simp add: mat_dim_outer)
  with b show "mat_dim 5 3
      (let z_diff = vec_sub (col Zsig i) z_pred;
           z_diff = z_diff[1 := normalize_angle (z_diff ! 1)];
           x_diff = vec_sub (col (Xsig_pred s) i) (ukf_x s);
           x_diff = x_diff[3 := normalize_angle (x_diff ! 3)]
       in mat_add b (outer (vec_scale (weights s ! i) x_diff) z_diff))"
    unfolding Let_def by (rule mat_dim_mat_add)
qed

lemma radar_covariance_symmetric:
  fixes p00 :: real
  shows "symmetric (mat_sub
     [[p00, p01, p02, p03, p04], [p01, p11, p12, p13, p14], [p02, p12, p22, p23, p24],
      [p03, p13, p23, p33, p34], [p04, p14, p24, p34, p44]]
     (mat_mult (mat_mult
         [[k00, k01, k02], [k10, k11, k12], [k20, k21, k22], [k30, k31, k32], [k40, k41, k42]]
         [[a, b, c], [b, d, e], [c, e, f]])
       (mat_transpose
         [[k00, k01, k02], [k10, k11, k12], [k20, k21, k22], [k30, k31, k32], [k40, k41, k42]])))"
  by (simp add: symmetric_def mat_transpose_def mat_mult_def mat_sub_def vec_sub_def
      cols_def col_def dot_def upt_0_3 upt_0_5 algebra_simps)

lemma UpdateRadar_symmetric:
  assumes P: "mat_dim 5 5 (ukf_P s)" "symmetric (ukf_P s)"
    and x: "length (ukf_x s) = 5"
    and n: "n_x s = 5"
    and X: "length (Xsig_pred s) = 5"
    and R: "mat_dim 3 3 (R_radar s)" "symmetric (R_radar s)"
    and inv: "\<And>S. mat_dim 3 3 S \<Longrightarrow> mat_dim 3 3 (minverse S)"
  shows "\<exists>s'. UpdateRadar minverse s z = Some (s', z[1 := normalize_angle (z ! 1)])
     \<and> symmetric (ukf_P s')"
proof -
  obtain Zsig where Z: "UpdateRadar_Zsig_loop (Xsig_pred s) [0..<2 * n_aug s + 1]
      (Zero 3 (2 * n_aug s + 1)) = Some Zsig"
    using UpdateRadar_Zsig_loop_Some by blast
  have lZ: "length Zsig = 3"
    using UpdateRadar_Zsig_loop_length [OF Z] by (simp add: Zero_def)
  let ?zp = "UpdateRadar_z_pred s Zsig"
  let ?S = "UpdateRadar_S s Zsig ?zp"
  let ?K = "mat_mult (UpdateRadar_Tc s Zsig ?zp) (minverse ?S)"
  have lzp: "length ?zp = 3"
    using lZ by (rule UpdateRadar_z_pred_length)
  have S: "mat_dim 3 3 ?S" "symmetric ?S"
    using UpdateRadar_S_symmetric [OF lZ lzp R] by simp_all
  have "mat_dim 5 3 (UpdateRadar_Tc s Zsig ?zp)"
    using n x X lZ lzp by (rule UpdateRadar_Tc_dim)
  then have "length (UpdateRadar_Tc s Zsig ?zp) = 5"
    by (simp add: mat_dim_def)
  moreover have "cols (minverse ?S) = 3"
    using inv [OF S(1)] by (simp add: mat_dim_cols)
  ultimately have K: "mat_dim 5 3 ?K"
    by (rule mat_dim_mat_mult)
  obtain p00 p01 p02 p03 p04 p11 p12 p13 p14 p22 p23 p24 p33 p34 p44
    where Pe: "ukf_P s = [[p00, p01, p02, p03, p04], [p01, p11, p12, p13, p14],
         [p02, p12, p22, p23, p24], [p03, p13, p23, p33, p34], [p04, p14, p24, p34, p44]]"
    using sym55_explicit [OF P] by blast
  obtain a b c d e f where Se: "?S = [[a, b, c], [b, d, e], [c, e, f]]"
    using sym33_explicit [OF S] by blast
  obtain k00 k01 k02 k10 k11 k12 k20 k21 k22 k30 k31 k32 k40 k41 k42
    where Ke: "?K = [[k00, k01, k02], [k10, k11, k12], [k20, k21, k22], [k30, k31, k32],
        [k40, k41, k42]]"
    using mat53_explicit [OF K] by blast
  have sym: "symmetric (mat_sub (ukf_P s) (mat_mult (mat_mult ?K ?S) (mat_transpose ?K)))"
    unfolding Ke unfolding Se Pe by (rule radar_covariance_symmetric)
  show ?thesis
    unfolding UpdateRadar_def UpdateRadar_body_def Let_def
    using sym by (simp only: Z option.case) simp
qed

lemma tracking_filter_config:
  "n_x tracking_filter = 5" "n_aug tracking_filter = 7"
  "Xsig_pred tracking_filter = Zero 5 15"
  "R_laser tracking_filter = [[0.15 * 0.15, 0], [0, 0.15 * 0.15]]"
  "R_radar tracking_filter = [[0.3 * 0.3, 0, 0], [0, 0.03 * 0.03, 0], [0, 0, 0.3 * 0.3]]"
  "weights tracking_filter = (- 2 / 5) # replicate 14 (1 / 10)"
  by (simp_all add: tracking_filter_def fresh_filter_def weights_UKF_ctor)
    (simp_all add: UKF_ctor_def Let_def unconstructed_def)

lemma tracking_filter_lidar_inverse:
  "is_inverse 2 (UpdateLidar_S tracking_filter) (inverse_diagonal (UpdateLidar_S tracking_filter))"
proof -
  have "UpdateLidar_S tracking_filter = [[1 + 0.15 * 0.15, 0], [0, 1 + 0.15 * 0.15]]"
    unfolding UpdateLidar_S_def Let_def tracking_filter_lidar tracking_filter_config Identity_5_5
    by (simp add: mat_transpose_def mat_mult_def mat_add_def vec_add_def cols_def col_def
        dot_def upt_0_2 upt_0_5)
  then show ?thesis
    by (simp add: is_inverse_def inverse_diagonal_def mat_dim_def mat_mult_def Identity_def
        cols_def col_def dot_def upt_0_2)
qed

text \<open>
  C6: for a filter with a symmetric 5 by 5 covariance and a state of five coefficients,
  and for every measurement, the covariance after the lidar update is symmetric, and the
  radar update returns with a symmetric covariance. The lidar update is taken with the
  measurement matrix of the constructor, a symmetric 2 by 2 measurement noise and a
  library inverse that returns an inverse of the innovation covariance; the radar update
  with five rows of cached sigma points, a symmetric 3 by 3 measurement noise and a
  library inverse that returns a 3 by 3 matrix on a 3 by 3 matrix.
\<close>

theorem C6_updates_keep_covariance_symmetric:
  assumes "mat_dim 5 5 (ukf_P s)" and "symmetric (ukf_P s)" and "length (ukf_x s) = 5"
  shows "(H_laser s = [[1, 0, 0, 0, 0], [0, 1, 0, 0, 0]]
          \<and> mat_dim 2 2 (R_laser s) \<and> symmetric (R_laser s)
          \<and> is_inverse 2 (UpdateLidar_S s) (minverse (UpdateLidar_S s))
          \<longrightarrow> symmetric (ukf_P (UpdateLidar minverse s z)))
       \<and> (n_x s = 5 \<and> length (Xsig_pred s) = 5
          \<and> mat_dim 3 3 (R_radar s) \<and> symmetric (R_radar s)
          \<and> (\<forall>S. mat_dim 3 3 S \<longrightarrow> mat_dim 3 3 (minverse S))
          \<longrightarrow> (\<exists>s'. UpdateRadar minverse s z = Some (s', z[1 := normalize_angle (z ! 1)])
                   \<and> symmetric (ukf_P s')))"
proof (intro conjI impI)
  assume "H_laser s = [[1, 0, 0, 0, 0], [0, 1, 0, 0, 0]]
          \<and> mat_dim 2 2 (R_laser s) \<and> symmetric (R_laser s)
          \<and> is_inverse 2 (UpdateLidar_S s) (minverse (UpdateLidar_S s))"
  then show "symmetric (ukf_P (UpdateLidar minverse s z))"
    using assms by (simp add: UpdateLidar_symmetric)
next
  assume a: "n_x s = 5 \<and> length (Xsig_pred s) = 5
          \<and> mat_dim 3 3 (R_radar s) \<and> symmetric (R_radar s)
          \<and> (\<forall>S. mat_dim 3 3 S \<longrightarrow> mat_dim 3 3 (minverse S))"
  then have "\<And>S. mat_dim 3 3 S \<Longrightarrow> mat_dim 3 3 (minverse S)" by blast
  with a show "\<exists>s'. UpdateRadar minverse s z = Some (s', z[1 := normalize_angle (z ! 1)])
      \<and> symmetric (ukf_P s')"
    using assms by (intro UpdateRadar_symmetric) simp_all
qed

theorem C6_updates_keep_covariance_symmetric_witness:
  "mat_dim 5 5 (ukf_P tracking_filter) \<and> symmetric (ukf_P tracking_filter)
   \<and> length (ukf_x tracking_filter) = 5
   \<and> H_laser tracking_filter = [[1, 0, 0, 0, 0], [0, 1, 0, 0, 0]]
   \<and> mat_dim 2 2 (R_laser tracking_filter) \<and> symmetric (R_laser tracking_filter)
   \<and> is_inverse 2 (UpdateLidar_S tracking_filter)
        (inverse_diagonal (UpdateLidar_S tracking_filter))
   \<and> symmetric (ukf_P (UpdateLidar inverse_diagonal tracking_filter [3.1, 3.9]))
   \<and> n_x tracking_filter = 5 \<and> length (Xsig_pred tracking_filter) = 5
   \<and> mat_dim 3 3 (R_radar tracking_filter) \<and> symmetric (R_radar tracking_filter)
   \<and> (\<exists>s'. UpdateRadar inverse_diagonal tracking_filter [5, 1, 0] = Some (s', [5, normalize_angle 1, 0])
          \<and> symmetric (ukf_P s'))"
proof -
  have P: "mat_dim 5 5 (ukf_P tracking_filter)" "symmetric (ukf_P tracking_filter)"
    and x: "length (ukf_x tracking_filter) = 5"
    by (simp_all add: tracking_filter_lidar Identity_5_5_symmetric)
  have H: "H_laser tracking_filter = [[1, 0, 0, 0, 0], [0, 1, 0, 0, 0]]"
    by (rule tracking_filter_lidar)
  have Rl: "mat_dim 2 2 (R_laser tracking_filter)" "symmetric (R_laser tracking_filter)"
    by (simp_all add: tracking_filter_config mat_dim_def symmetric_def mat_transpose_def
        cols_def col_def upt_0_2)
  have Rr: "mat_dim 3 3 (R_radar tracking_filter)" "symmetric (R_radar tracking_filter)"
    by (simp_all add: tracking_filter_config mat_dim_def symmetric_def mat_transpose_def
        cols_def col_def upt_0_3)
  have n: "n_x tracking_filter = 5" "length (Xsig_pred tracking_filter) = 5"
    by (simp_all add: tracking_filter_config Zero_def)
  have inv: "\<forall>S. mat_dim 3 3 S \<longrightarrow> mat_dim 3 3 (inverse_diagonal S)"
    by (simp add: mat_dim_inverse_diagonal)
  note t = C6_updates_keep_covariance_symmetric [OF P x, of inverse_diagonal]
  have "symmetric (ukf_P (UpdateLidar inverse_diagonal tracking_filter [3.1, 3.9]))"
    using t [of "[3.1, 3.9]"] H Rl tracking_filter_lidar_inverse by blast
  moreover have "\<exists>s'. UpdateRadar inverse_diagonal tracking_filter [5, 1, 0]
        = Some (s', [5, 1, 0][1 := normalize_angle ([5, 1, 0] ! 1)]) \<and> symmetric (ukf_P s')"
    using t [of "[5, 1, 0]"] n Rr inv by blast
  ultimately show ?thesis
    using P x H Rl Rr n tracking_filter_lidar_inverse by simp
qed

section \<open>Prediction over no elapsed time\<close>

lemma SigmaPointPrediction_col_still:
  "SigmaPointPrediction_col 0 Xsig_aug i =
     Some [Xsig_aug ! 0 ! i, Xsig_aug ! 1 ! i, Xsig_aug ! 2 ! i, Xsig_aug ! 3 ! i,
           Xsig_aug ! 4 ! i]"
proof (cases "\<bar>Xsig_aug ! 4 ! i\<bar> > 0.001")
  case True
  then show ?thesis by (simp add: SigmaPointPrediction_col_turn)
next
  case False
  then show ?thesis by (simp add: SigmaPointPrediction_col_straight)
qed

lemma write_column:
  assumes M: "mat_dim 5 n M" and i: "i < n" and r: "r < 5"
  shows "set_entry (set_entry (set_entry (set_entry (set_entry M
           0 i (p ! 0)) 1 i (p ! 1)) 2 i (p ! 2)) 3 i (p ! 3)) 4 i (p ! 4) ! r ! j
         = (if j = i then p ! r else M ! r ! j)"
proof -
  let ?M1 = "set_entry M 0 i (p ! 0)"
  let ?M2 = "set_entry ?M1 1 i (p ! 1)"
  let ?M3 = "set_entry ?M2 2 i (p ! 2)"
  let ?M4 = "set_entry ?M3 3 i (p ! 3)"
  have d: "mat_dim 5 n ?M1" "mat_dim 5 n ?M2" "mat_dim 5 n ?M3" "mat_dim 5 n ?M4"
    using M by (simp_all add: mat_dim_set_entry)
  have e1: "?M1 ! r' ! c' = (if r' = 0 \<and> c' = i then p ! 0 else M ! r' ! c')" for r' c'
    using set_entry_nth [OF M _ i, of 0] by simp
  have e2: "?M2 ! r' ! c' = (if r' = 1 \<and> c' = i then p ! 1 else ?M1 ! r' ! c')" for r' c'
    using set_entry_nth [OF d(1) _ i, of 1] by simp
  have e3: "?M3 ! r' ! c' = (if r' = 2 \<and> c' = i then p ! 2 else ?M2 ! r' ! c')" for r' c'
    using set_entry_nth [OF d(2) _ i, of 2] by simp
  have e4: "?M4 ! r' ! c' = (if r' = 3 \<and> c' = i then p ! 3 else ?M3 ! r' ! c')" for r' c'
    using set_entry_nth [OF d(3) _ i, of 3] by simp
  have e5: "set_entry ?M4 4 i (p ! 4) ! r' ! c'
      = (if r' = 4 \<and> c' = i then p ! 4 else ?M4 ! r' ! c')" for r' c'
    using set_entry_nth [OF d(4) _ i, of 4] by simp
  from r have "r = 0 \<or> r = 1 \<or> r = 2 \<or> r = 3 \<or> r = 4"
    by (rule less_5_cases)
  then show ?thesis
    unfolding e5 e4 e3 e2 e1 by auto
qed

lemma mat_dim_write_column:
  assumes "mat_dim 5 n M"
  shows "mat_dim 5 n (set_entry (set_entry (set_entry (set_entry (set_entry M
           0 i (p ! 0)) 1 i (p ! 1)) 2 i (p ! 2)) 3 i (p ! 3)) 4 i (p ! 4))"
  using assms by (simp add: mat_dim_set_entry)

lemma SigmaPointPrediction_loop_columns:
  assumes "mat_dim 5 n Xp" and "\<forall>i \<in> set is. i < n"
  shows "\<exists>Xp'. SigmaPointPrediction_loop delta_t Xsig_aug is Xp = Some Xp'
     \<and> mat_dim 5 n Xp'
     \<and> (\<forall>r<5. \<forall>j. Xp' ! r ! j =
          (if j \<in> set is then the (SigmaPointPrediction_col delta_t Xsig_aug j) ! r
           else Xp ! r ! j))"
  using assms
proof (induction "is" arbitrary: Xp)
  case Nil
  then show ?case by simp
next
  case (Cons i "is")
  obtain p where p: "SigmaPointPrediction_col delta_t Xsig_aug i = Some p"
    using SigmaPointPrediction_col_length by blast
  define W where "W = set_entry (set_entry (set_entry (set_entry (set_entry Xp
           0 i (p ! 0)) 1 i (p ! 1)) 2 i (p ! 2)) 3 i (p ! 3)) 4 i (p ! 4)"
  have i: "i < n" and rest: "\<forall>i \<in> set is. i < n"
    using Cons.prems(2) by simp_all
  have W: "mat_dim 5 n W"
    unfolding W_def using Cons.prems(1) by (rule mat_dim_write_column)
  have W_nth: "W ! r ! j = (if j = i then p ! r else Xp ! r ! j)" if "r < 5" for r j
    unfolding W_def using Cons.prems(1) i that by (rule write_column)
  obtain Xp' where loop: "SigmaPointPrediction_loop delta_t Xsig_aug is W = Some Xp'"
    and dim: "mat_dim 5 n Xp'"
    and cols: "\<forall>r<5. \<forall>j. Xp' ! r ! j =
          (if j \<in> set is then the (SigmaPointPrediction_col delta_t Xsig_aug j) ! r
           else W ! r ! j)"
    using Cons.IH [OF W rest] by blast
  have "SigmaPointPrediction_loop delta_t Xsig_aug (i # is) Xp = Some Xp'"
    using p loop unfolding W_def by simp
  moreover have "\<forall>r<5. \<forall>j. Xp' ! r ! j =
          (if j \<in> set (i # is) then the (SigmaPointPrediction_col delta_t Xsig_aug j) ! r
           else Xp ! r ! j)"
    using cols p by (simp add: W_nth)
  ultimately show ?case using dim by blast
qed

lemma SigmaPointPrediction_still:
  assumes "mat_dim 5 15 (Xsig_pred s)" and "n_aug s = 7"
  shows "\<exists>Xp'. SigmaPointPrediction 0 Xsig_aug s = Some (s\<lparr>Xsig_pred := Xp'\<rparr>)
     \<and> (\<forall>j<15. col Xp' j = [Xsig_aug ! 0 ! j, Xsig_aug ! 1 ! j, Xsig_aug ! 2 ! j,
                             Xsig_aug ! 3 ! j, Xsig_aug ! 4 ! j])"
proof -
  have "\<forall>i \<in> set [0..<15]. i < 15" by simp
  from SigmaPointPrediction_loop_columns [OF assms(1) this, of 0 Xsig_aug]
  obtain Xp' where loop: "SigmaPointPrediction_loop 0 Xsig_aug [0..<15] (Xsig_pred s) = Some Xp'"
    and dim: "mat_dim 5 15 Xp'"
    and cols: "\<forall>r<5. \<forall>j. Xp' ! r ! j =
          (if j \<in> set [0..<15] then the (SigmaPointPrediction_col 0 Xsig_aug j) ! r
           else Xsig_pred s ! r ! j)"
    by blast
  have "2 * n_aug s + 1 = 15" using assms(2) by simp
  then have "SigmaPointPrediction 0 Xsig_aug s = Some (s\<lparr>Xsig_pred := Xp'\<rparr>)"
    unfolding SigmaPointPrediction_def by (simp only: loop option.case)
  moreover have "col Xp' j = [Xsig_aug ! 0 ! j, Xsig_aug ! 1 ! j, Xsig_aug ! 2 ! j,
                             Xsig_aug ! 3 ! j, Xsig_aug ! 4 ! j]" if "j < 15" for j
    using that cols by (simp add: col_5_rows [OF dim] SigmaPointPrediction_col_still)
  ultimately show ?thesis by blast
qed

lemma sigma_points_explicit:
  assumes "n_x s = 5" "n_aug s = 7" "ukf_x s = [x0, x1, x2, x3, x4]"
    and "llt (GenerateAugmentedSigmaPoints_P_aug s) =
     [[l00, l01, l02, l03, l04, l05, l06],
      [l10, l11, l12, l13, l14, l15, l16],
      [l20, l21, l22, l23, l24, l25, l26],
      [l30, l31, l32, l33, l34, l35, l36],
      [l40, l41, l42, l43, l44, l45, l46],
      [l50, l51, l52, l53, l54, l55, l56],
      [l60, l61, l62, l63, l64, l65, l66]]"
    and "sqrt (lambda s + 7) = c"
  shows "GenerateAugmentedSigmaPoints llt s (Zero 7 15) =
     [[x0, x0 + c * l00, x0 + c * l01, x0 + c * l02, x0 + c * l03, x0 + c * l04, x0 + c * l05, x0 + c * l06, x0 - c * l00, x0 - c * l01, x0 - c * l02, x0 - c * l03, x0 - c * l04, x0 - c * l05, x0 - c * l06],
      [x1, x1 + c * l10, x1 + c * l11, x1 + c * l12, x1 + c * l13, x1 + c * l14, x1 + c * l15, x1 + c * l16, x1 - c * l10, x1 - c * l11, x1 - c * l12, x1 - c * l13, x1 - c * l14, x1 - c * l15, x1 - c * l16],
      [x2, x2 + c * l20, x2 + c * l21, x2 + c * l22, x2 + c * l23, x2 + c * l24, x2 + c * l25, x2 + c * l26, x2 - c * l20, x2 - c * l21, x2 - c * l22, x2 - c * l23, x2 - c * l24, x2 - c * l25, x2 - c * l26],
      [x3, x3 + c * l30, x3 + c * l31, x3 + c * l32, x3 + c * l33, x3 + c * l34, x3 + c * l35, x3 + c * l36, x3 - c * l30, x3 - c * l31, x3 - c * l32, x3 - c * l33, x3 - c * l34, x3 - c * l35, x3 - c * l36],
      [x4, x4 + c * l40, x4 + c * l41, x4 + c * l42, x4 + c * l43, x4 + c * l44, x4 + c * l45, x4 + c * l46, x4 - c * l40, x4 - c * l41, x4 - c * l42, x4 - c * l43, x4 - c * l44, x4 - c * l45, x4 - c * l46],
      [0, 0 + c * l50, 0 + c * l51, 0 + c * l52, 0 + c * l53, 0 + c * l54, 0 + c * l55, 0 + c * l56, 0 - c * l50, 0 - c * l51, 0 - c * l52, 0 - c * l53, 0 - c * l54, 0 - c * l55, 0 - c * l56],
      [0, 0 + c * l60, 0 + c * l61, 0 + c * l62, 0 + c * l63, 0 + c * l64, 0 + c * l65, 0 + c * l66, 0 - c * l60, 0 - c * l61, 0 - c * l62, 0 - c * l63, 0 - c * l64, 0 - c * l65, 0 - c * l66]]"
  unfolding GenerateAugmentedSigmaPoints_def Let_def assms(1,2,3,4)
  by (simp add: assms(5) set_head_def upt_5_7 upt_0_7 Zero_def set_col_def col_def vec_add_def
      vec_sub_def vec_scale_def eval_nat_numeral)

lemma mean_of_sigma_points:
  fixes x0 :: real
  assumes "Xa =
     [[x0, x0 + c * l00, x0 + c * l01, x0 + c * l02, x0 + c * l03, x0 + c * l04, x0 + c * l05, x0 + c * l06, x0 - c * l00, x0 - c * l01, x0 - c * l02, x0 - c * l03, x0 - c * l04, x0 - c * l05, x0 - c * l06],
      [x1, x1 + c * l10, x1 + c * l11, x1 + c * l12, x1 + c * l13, x1 + c * l14, x1 + c * l15, x1 + c * l16, x1 - c * l10, x1 - c * l11, x1 - c * l12, x1 - c * l13, x1 - c * l14, x1 - c * l15, x1 - c * l16],
      [x2, x2 + c * l20, x2 + c * l21, x2 + c * l22, x2 + c * l23, x2 + c * l24, x2 + c * l25, x2 + c * l26, x2 - c * l20, x2 - c * l21, x2 - c * l22, x2 - c * l23, x2 - c * l24, x2 - c * l25, x2 - c * l26],
      [x3, x3 + c * l30, x3 + c * l31, x3 + c * l32, x3 + c * l33, x3 + c * l34, x3 + c * l35, x3 + c * l36, x3 - c * l30, x3 - c * l31, x3 - c * l32, x3 - c * l33, x3 - c * l34, x3 - c * l35, x3 - c * l36],
      [x4, x4 + c * l40, x4 + c * l41, x4 + c * l42, x4 + c * l43, x4 + c * l44, x4 + c * l45, x4 + c * l46, x4 - c * l40, x4 - c * l41, x4 - c * l42, x4 - c * l43, x4 - c * l44, x4 - c * l45, x4 - c * l46],
      [0, 0 + c * l50, 0 + c * l51, 0 + c * l52, 0 + c * l53, 0 + c * l54, 0 + c * l55, 0 + c * l56, 0 - c * l50, 0 - c * l51, 0 - c * l52, 0 - c * l53, 0 - c * l54, 0 - c * l55, 0 - c * l56],
      [0, 0 + c * l60, 0 + c * l61, 0 + c * l62, 0 + c * l63, 0 + c * l64, 0 + c * l65, 0 + c * l66, 0 - c * l60, 0 - c * l61, 0 - c * l62, 0 - c * l63, 0 - c * l64, 0 - c * l65, 0 - c * l66]]"
  shows "fold (\<lambda>i x'. vec_add x' (vec_scale (((- 2 / 5) # replicate 14 (1 / 10)) ! i)
            [Xa ! 0 ! i, Xa ! 1 ! i, Xa ! 2 ! i, Xa ! 3 ! i, Xa ! 4 ! i]))
          [0..<15] (replicate 5 0)
       = [x0, x1, x2, x3, x4]"
  unfolding assms upt_0_15
  by (simp add: vec_add_def vec_scale_def eval_nat_numeral add_divide_distrib
      diff_divide_distrib)

lemma P_aug_dim:
  assumes "n_x s = 5" "n_aug s = 7" "mat_dim 5 5 (ukf_P s)"
  shows "mat_dim 7 7 (GenerateAugmentedSigmaPoints_P_aug s)"
proof -
  have "mat_dim 7 7 (set_topLeftCorner (setZero (Zero 7 7)) 5 5 (ukf_P s))"
    using assms(3)
    by (simp add: mat_dim_def set_topLeftCorner_def setZero_Zero rows_Zero list_all_length)
      (simp add: Zero_def)
  then show ?thesis
    unfolding GenerateAugmentedSigmaPoints_P_aug_def Let_def assms(1,2)
    by (simp add: mat_dim_set_entry)
qed

lemma Prediction_still_mean:
  assumes n: "n_x s = 5" "n_aug s = 7"
    and w: "weights s = (- 2 / 5) # replicate 14 (1 / 10)"
    and x: "length (ukf_x s) = 5"
    and X: "mat_dim 5 15 (Xsig_pred s)"
    and L: "mat_dim 7 7 (llt (GenerateAugmentedSigmaPoints_P_aug s))"
  shows "\<exists>s'. Prediction llt 0 s = Some s' \<and> ukf_x s' = ukf_x s"
proof -
  obtain x0 x1 x2 x3 x4 where xe: "ukf_x s = [x0, x1, x2, x3, x4]"
    using vec5_explicit [OF x] by blast
  obtain r0 r1 r2 r3 r4 r5 r6
    where Lr: "llt (GenerateAugmentedSigmaPoints_P_aug s) = [r0, r1, r2, r3, r4, r5, r6]"
      and l: "length r0 = 7" "length r1 = 7" "length r2 = 7" "length r3 = 7"
        "length r4 = 7" "length r5 = 7" "length r6 = 7"
    using mat77_rows [OF L] by blast
  obtain l00 l01 l02 l03 l04 l05 l06 where r0: "r0 = [l00, l01, l02, l03, l04, l05, l06]"
    using vec7_explicit [OF l(1)] by blast
  obtain l10 l11 l12 l13 l14 l15 l16 where r1: "r1 = [l10, l11, l12, l13, l14, l15, l16]"
    using vec7_explicit [OF l(2)] by blast
  obtain l20 l21 l22 l23 l24 l25 l26 where r2: "r2 = [l20, l21, l22, l23, l24, l25, l26]"
    using vec7_explicit [OF l(3)] by blast
  obtain l30 l31 l32 l33 l34 l35 l36 where r3: "r3 = [l30, l31, l32, l33, l34, l35, l36]"
    using vec7_explicit [OF l(4)] by blast
  obtain l40 l41 l42 l43 l44 l45 l46 where r4: "r4 = [l40, l41, l42, l43, l44, l45, l46]"
    using vec7_explicit [OF l(5)] by blast
  obtain l50 l51 l52 l53 l54 l55 l56 where r5: "r5 = [l50, l51, l52, l53, l54, l55, l56]"
    using vec7_explicit [OF l(6)] by blast
  obtain l60 l61 l62 l63 l64 l65 l66 where r6: "r6 = [l60, l61, l62, l63, l64, l65, l66]"
    using vec7_explicit [OF l(7)] by blast
  have Le: "llt (GenerateAugmentedSigmaPoints_P_aug s) =
     [[l00, l01, l02, l03, l04, l05, l06],
      [l10, l11, l12, l13, l14, l15, l16],
      [l20, l21, l22, l23, l24, l25, l26],
      [l30, l31, l32, l33, l34, l35, l36],
      [l40, l41, l42, l43, l44, l45, l46],
      [l50, l51, l52, l53, l54, l55, l56],
      [l60, l61, l62, l63, l64, l65, l66]]"
    unfolding Lr r0 r1 r2 r3 r4 r5 r6 by (rule refl)
  define c where "c = sqrt (lambda s + 7)"
  define Xa where "Xa = GenerateAugmentedSigmaPoints llt s (Zero 7 15)"
  have Xe: "Xa =
     [[x0, x0 + c * l00, x0 + c * l01, x0 + c * l02, x0 + c * l03, x0 + c * l04, x0 + c * l05, x0 + c * l06, x0 - c * l00, x0 - c * l01, x0 - c * l02, x0 - c * l03, x0 - c * l04, x0 - c * l05, x0 - c * l06],
      [x1, x1 + c * l10, x1 + c * l11, x1 + c * l12, x1 + c * l13, x1 + c * l14, x1 + c * l15, x1 + c * l16, x1 - c * l10, x1 - c * l11, x1 - c * l12, x1 - c * l13, x1 - c * l14, x1 - c * l15, x1 - c * l16],
      [x2, x2 + c * l20, x2 + c * l21, x2 + c * l22, x2 + c * l23, x2 + c * l24, x2 + c * l25, x2 + c * l26, x2 - c * l20, x2 - c * l21, x2 - c * l22, x2 - c * l23, x2 - c * l24, x2 - c * l25, x2 - c * l26],
      [x3, x3 + c * l30, x3 + c * l31, x3 + c * l32, x3 + c * l33, x3 + c * l34, x3 + c * l35, x3 + c * l36, x3 - c * l30, x3 - c * l31, x3 - c * l32, x3 - c * l33, x3 - c * l34, x3 - c * l35, x3 - c * l36],
      [x4, x4 + c * l40, x4 + c * l41, x4 + c * l42, x4 + c * l43, x4 + c * l44, x4 + c * l45, x4 + c * l46, x4 - c * l40, x4 - c * l41, x4 - c * l42, x4 - c * l43, x4 - c * l44, x4 - c * l45, x4 - c * l46],
      [0, 0 + c * l50, 0 + c * l51, 0 + c * l52, 0 + c * l53, 0 + c * l54, 0 + c * l55, 0 + c * l56, 0 - c * l50, 0 - c * l51, 0 - c * l52, 0 - c * l53, 0 - c * l54, 0 - c * l55, 0 - c * l56],
      [0, 0 + c * l60, 0 + c * l61, 0 + c * l62, 0 + c * l63, 0 + c * l64, 0 + c * l65, 0 + c * l66, 0 - c * l60, 0 - c * l61, 0 - c * l62, 0 - c * l63, 0 - c * l64, 0 - c * l65, 0 - c * l66]]"
    unfolding Xa_def using n xe Le c_def [symmetric] by (rule sigma_points_explicit)
  obtain Xp' where sp: "SigmaPointPrediction 0 Xa s = Some (s\<lparr>Xsig_pred := Xp'\<rparr>)"
    and cols: "\<forall>j<15. col Xp' j = [Xa ! 0 ! j, Xa ! 1 ! j, Xa ! 2 ! j, Xa ! 3 ! j, Xa ! 4 ! j]"
    using SigmaPointPrediction_still [OF X n(2)] by blast
  have "2 * n_aug s + 1 = 15" using n(2) by simp
  then have p: "Prediction llt 0 s = Some (PredictMeanAndCovariance (s\<lparr>Xsig_pred := Xp'\<rparr>))"
    unfolding Prediction_def Let_def n(2)
    using sp unfolding Xa_def by (simp only: option.case)
  have "ukf_x (PredictMeanAndCovariance (s\<lparr>Xsig_pred := Xp'\<rparr>))
      = fold (\<lambda>i x'. vec_add x' (vec_scale (((- 2 / 5) # replicate 14 (1 / 10)) ! i)
            (col Xp' i))) [0..<15] (replicate 5 0)"
    unfolding PredictMeanAndCovariance_def Let_def
    by (simp add: n(2) w setZero_vec_def x del: upt_Suc)
  also have "\<dots> = fold (\<lambda>i x'. vec_add x' (vec_scale (((- 2 / 5) # replicate 14 (1 / 10)) ! i)
            [Xa ! 0 ! i, Xa ! 1 ! i, Xa ! 2 ! i, Xa ! 3 ! i, Xa ! 4 ! i]))
          [0..<15] (replicate 5 0)"
    using cols by (intro fold_cong) simp_all
  also have "\<dots> = [x0, x1, x2, x3, x4]"
    using Xe by (rule mean_of_sigma_points)
  finally have "ukf_x (PredictMeanAndCovariance (s\<lparr>Xsig_pred := Xp'\<rparr>)) = ukf_x s"
    by (simp add: xe)
  with p show ?thesis by blast
qed

text \<open>
  C4: for a filter with the dimensions and the weights of the constructor, a state of
  five coefficients, a 5 by 5 covariance and 5 by 15 cached sigma points, and for a
  Cholesky factorization that returns a 7 by 7 matrix on a 7 by 7 matrix, the prediction
  step over the elapsed time 0 returns, and the state mean it returns is the prior state
  mean. Nothing is said of the covariance.
\<close>

theorem C4_prediction_over_no_time_keeps_mean:
  assumes "n_x s = 5" and "n_aug s = 7" and "weights s = weights (UKF_ctor s)"
    and "length (ukf_x s) = 5" and "mat_dim 5 5 (ukf_P s)" and "mat_dim 5 15 (Xsig_pred s)"
    and "\<forall>A. mat_dim 7 7 A \<longrightarrow> mat_dim 7 7 (llt A)"
  shows "\<exists>s'. Prediction llt 0 s = Some s' \<and> ukf_x s' = ukf_x s"
proof -
  have "mat_dim 7 7 (GenerateAugmentedSigmaPoints_P_aug s)"
    using assms(1,2,5) by (rule P_aug_dim)
  with assms(7) have "mat_dim 7 7 (llt (GenerateAugmentedSigmaPoints_P_aug s))"
    by blast
  with assms(1,2,3,4,6) show ?thesis
    by (intro Prediction_still_mean) (simp_all add: weights_UKF_ctor)
qed

theorem C4_prediction_over_no_time_keeps_mean_witness:
  "n_x tracking_filter = 5 \<and> n_aug tracking_filter = 7
   \<and> weights tracking_filter = weights (UKF_ctor tracking_filter)
   \<and> length (ukf_x tracking_filter) = 5 \<and> mat_dim 5 5 (ukf_P tracking_filter)
   \<and> mat_dim 5 15 (Xsig_pred tracking_filter)
   \<and> (\<exists>s'. Prediction llt_diagonal 0 tracking_filter = Some s' \<and> ukf_x s' = [3, 4, 0, 0, 0])"
proof -
  have a: "n_x tracking_filter = 5" "n_aug tracking_filter = 7"
    "weights tracking_filter = weights (UKF_ctor tracking_filter)"
    "length (ukf_x tracking_filter) = 5" "mat_dim 5 5 (ukf_P tracking_filter)"
    "mat_dim 5 15 (Xsig_pred tracking_filter)"
    by (simp_all add: tracking_filter_config tracking_filter_lidar weights_UKF_ctor
        Identity_5_5_symmetric mat_dim_Zero)
  have b: "\<forall>A. mat_dim 7 7 A \<longrightarrow> mat_dim 7 7 (llt_diagonal A)"
    by (simp add: mat_dim_llt_diagonal)
  from C4_prediction_over_no_time_keeps_mean [OF a b] show ?thesis
    using a by (simp add: tracking_filter_lidar)
qed

section \<open>A measurement of unknown kind\<close>








end
